theory Spec2Isabelle
  imports Complex_Main "HOL-Library.Monad_Syntax"
begin

section \<open>Numbers and vectors\<close>

text \<open>
  The component computes on JavaScript numbers, which are IEEE binary64 values. Two models
  are used. Where a property is one of the algorithm, the numbers are modelled as
  \<^typ>\<open>real\<close> and the arithmetic is exact. The one way a finite computation on reals can
  leave the finite numbers is a division by zero or a square root of a negative number,
  and the checked operations below make exactly these two a failure (\<open>None\<close> stands for a
  NaN or an infinity). Where a property is a bound that rounding can cross, the
  arithmetic is binary64: every operation returns its exact result rounded to the
  nearest binary64 value, ties to even.
\<close>

definition js_div :: "real \<Rightarrow> real \<Rightarrow> real option" where
  "js_div a b = (if b = 0 then None else Some (a / b))"

definition js_sqrt :: "real \<Rightarrow> real option" where
  "js_sqrt a = (if a < 0 then None else Some (sqrt a))"

text \<open>
  Binary64 arithmetic on finite values. A binary64 value is an integer of magnitude below
  \<open>2^53\<close> times a power of two, the exponent at least \<open>-1074\<close>. \<open>round_even\<close> rounds a
  real to the nearest integer, ties to the even one; \<open>f64_ulp_exponent x\<close> is the exponent
  of the last place of the values around \<open>x\<close> (that of the subnormal values below
  \<open>2^-1022\<close>); \<open>f64_round\<close> rounds to the nearest value; \<open>f64\<close> is the result of an
  operation whose exact value is \<open>x\<close>: \<open>None\<close> when the rounded magnitude reaches \<open>2^1024\<close>,
  where binary64 gives an infinity. The two zeros of binary64 are one value here.
\<close>

definition round_even :: "real \<Rightarrow> int" where
  "round_even m =
     (let f = \<lfloor>m\<rfloor>; r = m - of_int f
      in if r < 1 / 2 then f else if 1 / 2 < r then f + 1 else if even f then f else f + 1)"

definition f64_ulp_exponent :: "real \<Rightarrow> int" where
  "f64_ulp_exponent x = max (\<lfloor>log 2 \<bar>x\<bar>\<rfloor> - 52) (- 1074)"

definition f64_round :: "real \<Rightarrow> real" where
  "f64_round x =
     (if x = 0 then 0
      else of_int (round_even (x / 2 powi f64_ulp_exponent x)) * 2 powi f64_ulp_exponent x)"

definition f64 :: "real \<Rightarrow> real option" where
  "f64 x = (if \<bar>f64_round x\<bar> < 2 ^ 1024 then Some (f64_round x) else None)"

text \<open>The operations of the code: \<open>+\<close>, \<open>-\<close>, \<open>*\<close>, \<open>/\<close> and \<open>Math.sqrt\<close>. A division by zero
  and the square root of a negative number give an infinity or a NaN.\<close>

definition f64_add :: "real \<Rightarrow> real \<Rightarrow> real option" where
  "f64_add a b = f64 (a + b)"

definition f64_sub :: "real \<Rightarrow> real \<Rightarrow> real option" where
  "f64_sub a b = f64 (a - b)"

definition f64_mul :: "real \<Rightarrow> real \<Rightarrow> real option" where
  "f64_mul a b = f64 (a * b)"

definition f64_div :: "real \<Rightarrow> real \<Rightarrow> real option" where
  "f64_div a b = (if b = 0 then None else f64 (a / b))"

definition f64_sqrt :: "real \<Rightarrow> real option" where
  "f64_sqrt a = (if a < 0 then None else f64 (sqrt a))"

text \<open>The unit roundoff of binary64, and the values that are zero or of a magnitude between
  two powers of two.\<close>

definition f64_u :: real where
  "f64_u = 1 / 2 ^ 53"

definition f64_range :: "int \<Rightarrow> int \<Rightarrow> real \<Rightarrow> bool" where
  "f64_range a b v \<longleftrightarrow> v = 0 \<or> (2 powi a \<le> \<bar>v\<bar> \<and> \<bar>v\<bar> \<le> 2 powi b)"

text \<open>
  \<open>THREE.Vector3\<close> and \<open>THREE.Quaternion\<close> come from the three.js library, which the
  component imports. The methods the frame callback calls are modelled after the
  library: each mutating method becomes a function returning the updated vector.
\<close>

record Vector3 =
  vx :: real
  vy :: real
  vz :: real

record Quaternion =
  qx :: real
  qy :: real
  qz :: real
  qw :: real

record Euler =
  ex :: real
  ey :: real
  ez :: real

text \<open>
  \<open>applyQuaternion\<close>: \<open>t = 2 * cross(q.xyz, v)\<close>, then \<open>v + q.w * t + cross(q.xyz, t)\<close>;
  the library assumes \<open>q\<close> of unit length.
\<close>

definition applyQuaternion :: "Vector3 \<Rightarrow> Quaternion \<Rightarrow> Vector3" where
  "applyQuaternion v q =
     (let tx = 2 * (qy q * vz v - qz q * vy v);
          ty = 2 * (qz q * vx v - qx q * vz v);
          tz = 2 * (qx q * vy v - qy q * vx v)
      in \<lparr>vx = vx v + qw q * tx + qy q * tz - qz q * ty,
          vy = vy v + qw q * ty + qz q * tx - qx q * tz,
          vz = vz v + qw q * tz + qx q * ty - qy q * tx\<rparr>)"

definition length_v3 :: "Vector3 \<Rightarrow> real" where
  "length_v3 v = sqrt (vx v * vx v + vy v * vy v + vz v * vz v)"

definition multiplyScalar :: "Vector3 \<Rightarrow> real \<Rightarrow> Vector3" where
  "multiplyScalar v s = \<lparr>vx = vx v * s, vy = vy v * s, vz = vz v * s\<rparr>"

definition divideScalar :: "Vector3 \<Rightarrow> real \<Rightarrow> Vector3" where
  "divideScalar v s = multiplyScalar v (1 / s)"

text \<open>\<open>normalize\<close> is \<open>this.divideScalar(this.length() || 1)\<close>: a zero length divides by 1.\<close>

definition normalize_v3 :: "Vector3 \<Rightarrow> Vector3" where
  "normalize_v3 v = divideScalar v (if length_v3 v = 0 then 1 else length_v3 v)"

definition add_v3 :: "Vector3 \<Rightarrow> Vector3 \<Rightarrow> Vector3" where
  "add_v3 a b = \<lparr>vx = vx a + vx b, vy = vy a + vy b, vz = vz a + vz b\<rparr>"

definition addScaledVector :: "Vector3 \<Rightarrow> Vector3 \<Rightarrow> real \<Rightarrow> Vector3" where
  "addScaledVector p v s = \<lparr>vx = vx p + vx v * s, vy = vy p + vy v * s, vz = vz p + vz v * s\<rparr>"

text \<open>\<open>Quaternion.setFromEuler\<close> for the default order \<open>XYZ\<close>, run when a rotation is copied
  into the camera.\<close>

definition setFromEuler :: "Euler \<Rightarrow> Quaternion" where
  "setFromEuler e =
     (let c1 = cos (ex e / 2); c2 = cos (ey e / 2); c3 = cos (ez e / 2);
          s1 = sin (ex e / 2); s2 = sin (ey e / 2); s3 = sin (ez e / 2)
      in \<lparr>qx = s1 * c2 * c3 + c1 * s2 * s3,
          qy = c1 * s2 * c3 - s1 * c2 * s3,
          qz = c1 * c2 * s3 + s1 * s2 * c3,
          qw = c1 * c2 * c3 - s1 * s2 * s3\<rparr>)"

text \<open>The checked counterparts: every division and square root may fail.\<close>

definition length_chk :: "Vector3 \<Rightarrow> real option" where
  "length_chk v = js_sqrt (vx v * vx v + vy v * vy v + vz v * vz v)"

definition divideScalar_chk :: "Vector3 \<Rightarrow> real \<Rightarrow> Vector3 option" where
  "divideScalar_chk v s = do { r \<leftarrow> js_div 1 s; Some (multiplyScalar v r) }"

definition normalize_chk :: "Vector3 \<Rightarrow> Vector3 option" where
  "normalize_chk v = do { l \<leftarrow> length_chk v; divideScalar_chk v (if l = 0 then 1 else l) }"




text \<open>
  The specification's "rotated 90 degrees about the vertical axis", written from its
  words and not from the code: \<open>rotateY90\<close> is the quarter turn about the y axis that
  takes the default look direction \<open>(0, 0, -1)\<close> to the default right \<open>(1, 0, 0)\<close>, and
  \<open>rotateY90_back\<close> is the quarter turn the other way.
\<close>

definition rotateY90 :: "Vector3 \<Rightarrow> Vector3" where
  "rotateY90 v = \<lparr>vx = - vz v, vy = vy v, vz = vx v\<rparr>"

definition rotateY90_back :: "Vector3 \<Rightarrow> Vector3" where
  "rotateY90_back v = \<lparr>vx = vz v, vy = vy v, vz = - vx v\<rparr>"

definition unit_quaternion :: "Quaternion \<Rightarrow> bool" where
  "unit_quaternion q \<longleftrightarrow> qx q * qx q + qy q * qy q + qz q * qz q + qw q * qw q = 1"

section \<open>The joystick input mapper\<close>

text \<open>
  \<open>VirtualJoystick\<close> holds the dragging flag and the knob position, reads the bounding
  rectangle of its element through \<open>joystickRef\<close> (\<open>None\<close> while the element is not
  mounted), and reports through \<open>onMove\<close>, which the parent binds to
  \<open>setMoveDirection\<close>: the field \<open>moveDirection\<close> is the parent's state.
\<close>

record Point =
  px :: real
  py :: real

record DOMRect =
  rect_left :: real
  rect_top :: real
  rect_width :: real
  rect_height :: real

record Joystick =
  isDragging :: bool
  position :: Point
  joystickRef :: "DOMRect option"
  moveDirection :: Point

text \<open>The Euclidean magnitude of a vector of the plane.\<close>

definition magnitude :: "Point \<Rightarrow> real" where
  "magnitude p = sqrt (px p * px p + py p * py p)"

definition maxDistance :: real where
  "maxDistance = 40"

text \<open>\<open>updatePosition\<close> of \<^verbatim>\<open>src/components/HorrorGame.tsx\<close>.\<close>

definition updatePosition :: "real \<Rightarrow> real \<Rightarrow> Joystick \<Rightarrow> Joystick" where
  "updatePosition clientX clientY s =
     (case joystickRef s of
        None \<Rightarrow> s
      | Some rect \<Rightarrow>
          (let centerX = rect_left rect + rect_width rect / 2;
               centerY = rect_top rect + rect_height rect / 2;
               dx = clientX - centerX;
               dy = clientY - centerY;
               distance = sqrt (dx * dx + dy * dy);
               dx' = (if distance > maxDistance then (dx / distance) * maxDistance else dx);
               dy' = (if distance > maxDistance then (dy / distance) * maxDistance else dy)
           in s\<lparr>position := \<lparr>px = dx', py = dy'\<rparr>,
                moveDirection := \<lparr>px = dx' / maxDistance, py = - dy' / maxDistance\<rparr>\<rparr>))"

definition handleStart :: "real \<Rightarrow> real \<Rightarrow> Joystick \<Rightarrow> Joystick" where
  "handleStart clientX clientY s = updatePosition clientX clientY (s\<lparr>isDragging := True\<rparr>)"

definition handleMove :: "real \<Rightarrow> real \<Rightarrow> Joystick \<Rightarrow> Joystick" where
  "handleMove clientX clientY s = (if isDragging s then updatePosition clientX clientY s else s)"

definition handleEnd :: "Joystick \<Rightarrow> Joystick" where
  "handleEnd s = s\<lparr>isDragging := False, position := \<lparr>px = 0, py = 0\<rparr>,
                   moveDirection := \<lparr>px = 0, py = 0\<rparr>\<rparr>"

text \<open>The event bindings of the joystick element; a touch event carries the coordinates of
  its first touch.\<close>

datatype Event =
    TouchStart real real
  | TouchMove real real
  | TouchEnd
  | MouseDown real real
  | MouseMove real real
  | MouseUp
  | MouseLeave

fun dispatch :: "Event \<Rightarrow> Joystick \<Rightarrow> Joystick" where
  "dispatch (TouchStart x y) s = handleStart x y s"
| "dispatch (TouchMove x y) s = handleMove x y s"
| "dispatch TouchEnd s = handleEnd s"
| "dispatch (MouseDown x y) s = handleStart x y s"
| "dispatch (MouseMove x y) s = handleMove x y s"
| "dispatch MouseUp s = handleEnd s"
| "dispatch MouseLeave s = handleEnd s"

text \<open>\<open>updatePosition\<close> of the second version of the component (\<^verbatim>\<open>part_000\<close>).\<close>

definition updatePosition_part000 :: "real \<Rightarrow> real \<Rightarrow> Joystick \<Rightarrow> Joystick" where
  "updatePosition_part000 clientX clientY s =
     (case joystickRef s of
        None \<Rightarrow> s
      | Some rect \<Rightarrow>
          (let centerX = rect_left rect + rect_width rect / 2;
               centerY = rect_top rect + rect_height rect / 2;
               dx = clientX - centerX;
               dy = clientY - centerY;
               distance = sqrt (dx * dx + dy * dy);
               dx' = (if distance > maxDistance then (dx / distance) * maxDistance else dx);
               dy' = (if distance > maxDistance then (dy / distance) * maxDistance else dy)
           in s\<lparr>position := \<lparr>px = dx', py = dy'\<rparr>,
                moveDirection := \<lparr>px = dx' / maxDistance, py = - dy' / maxDistance\<rparr>\<rparr>))"

definition handleStart_part000 :: "real \<Rightarrow> real \<Rightarrow> Joystick \<Rightarrow> Joystick" where
  "handleStart_part000 clientX clientY s =
     updatePosition_part000 clientX clientY (s\<lparr>isDragging := True\<rparr>)"

definition handleMove_part000 :: "real \<Rightarrow> real \<Rightarrow> Joystick \<Rightarrow> Joystick" where
  "handleMove_part000 clientX clientY s =
     (if isDragging s then updatePosition_part000 clientX clientY s else s)"

definition handleEnd_part000 :: "Joystick \<Rightarrow> Joystick" where
  "handleEnd_part000 s = s\<lparr>isDragging := False, position := \<lparr>px = 0, py = 0\<rparr>,
                           moveDirection := \<lparr>px = 0, py = 0\<rparr>\<rparr>"

fun dispatch_part000 :: "Event \<Rightarrow> Joystick \<Rightarrow> Joystick" where
  "dispatch_part000 (TouchStart x y) s = handleStart_part000 x y s"
| "dispatch_part000 (TouchMove x y) s = handleMove_part000 x y s"
| "dispatch_part000 TouchEnd s = handleEnd_part000 s"
| "dispatch_part000 (MouseDown x y) s = handleStart_part000 x y s"
| "dispatch_part000 (MouseMove x y) s = handleMove_part000 x y s"
| "dispatch_part000 MouseUp s = handleEnd_part000 s"
| "dispatch_part000 MouseLeave s = handleEnd_part000 s"

text \<open>The mapper of \<^verbatim>\<open>part_000\<close> with checked arithmetic: \<open>None\<close> when a NaN or an infinity
  would arise.\<close>

definition updatePosition_part000_chk :: "real \<Rightarrow> real \<Rightarrow> Joystick \<Rightarrow> Joystick option" where
  "updatePosition_part000_chk clientX clientY s =
     (case joystickRef s of
        None \<Rightarrow> Some s
      | Some rect \<Rightarrow> do {
          hw \<leftarrow> js_div (rect_width rect) 2;
          hh \<leftarrow> js_div (rect_height rect) 2;
          let centerX = rect_left rect + hw;
          let centerY = rect_top rect + hh;
          let dx = clientX - centerX;
          let dy = clientY - centerY;
          distance \<leftarrow> js_sqrt (dx * dx + dy * dy);
          dx' \<leftarrow> (if distance > maxDistance
                 then do { u \<leftarrow> js_div dx distance; Some (u * maxDistance) } else Some dx);
          dy' \<leftarrow> (if distance > maxDistance
                 then do { u \<leftarrow> js_div dy distance; Some (u * maxDistance) } else Some dy);
          mvx \<leftarrow> js_div dx' maxDistance;
          mvy \<leftarrow> js_div (- dy') maxDistance;
          Some (s\<lparr>position := \<lparr>px = dx', py = dy'\<rparr>, moveDirection := \<lparr>px = mvx, py = mvy\<rparr>\<rparr>)
        })"

text \<open>
  \<open>updatePosition\<close> of \<^verbatim>\<open>src/components/HorrorGame.tsx\<close> in binary64 arithmetic: every
  operation of lines 166 to 181 is rounded, in the order the code evaluates them.
\<close>

definition updatePosition_f64 :: "real \<Rightarrow> real \<Rightarrow> Joystick \<Rightarrow> Joystick option" where
  "updatePosition_f64 clientX clientY s =
     (case joystickRef s of
        None \<Rightarrow> Some s
      | Some rect \<Rightarrow> do {
          hw \<leftarrow> f64_div (rect_width rect) 2;
          centerX \<leftarrow> f64_add (rect_left rect) hw;
          hh \<leftarrow> f64_div (rect_height rect) 2;
          centerY \<leftarrow> f64_add (rect_top rect) hh;
          dx \<leftarrow> f64_sub clientX centerX;
          dy \<leftarrow> f64_sub clientY centerY;
          xx \<leftarrow> f64_mul dx dx;
          yy \<leftarrow> f64_mul dy dy;
          ss \<leftarrow> f64_add xx yy;
          distance \<leftarrow> f64_sqrt ss;
          dx' \<leftarrow> (if distance > maxDistance
                 then do { q \<leftarrow> f64_div dx distance; f64_mul q maxDistance } else Some dx);
          dy' \<leftarrow> (if distance > maxDistance
                 then do { q \<leftarrow> f64_div dy distance; f64_mul q maxDistance } else Some dy);
          mvx \<leftarrow> f64_div dx' maxDistance;
          mvy \<leftarrow> f64_div (- dy') maxDistance;
          Some (s\<lparr>position := \<lparr>px = dx', py = dy'\<rparr>, moveDirection := \<lparr>px = mvx, py = mvy\<rparr>\<rparr>)
        })"

text \<open>\<open>updatePosition\<close> of the second version (\<^verbatim>\<open>part_000\<close>, lines 150 to 165) in binary64
  arithmetic.\<close>

definition updatePosition_part000_f64 :: "real \<Rightarrow> real \<Rightarrow> Joystick \<Rightarrow> Joystick option" where
  "updatePosition_part000_f64 clientX clientY s =
     (case joystickRef s of
        None \<Rightarrow> Some s
      | Some rect \<Rightarrow> do {
          hw \<leftarrow> f64_div (rect_width rect) 2;
          centerX \<leftarrow> f64_add (rect_left rect) hw;
          hh \<leftarrow> f64_div (rect_height rect) 2;
          centerY \<leftarrow> f64_add (rect_top rect) hh;
          dx \<leftarrow> f64_sub clientX centerX;
          dy \<leftarrow> f64_sub clientY centerY;
          xx \<leftarrow> f64_mul dx dx;
          yy \<leftarrow> f64_mul dy dy;
          ss \<leftarrow> f64_add xx yy;
          distance \<leftarrow> f64_sqrt ss;
          dx' \<leftarrow> (if distance > maxDistance
                 then do { q \<leftarrow> f64_div dx distance; f64_mul q maxDistance } else Some dx);
          dy' \<leftarrow> (if distance > maxDistance
                 then do { q \<leftarrow> f64_div dy distance; f64_mul q maxDistance } else Some dy);
          mvx \<leftarrow> f64_div dx' maxDistance;
          mvy \<leftarrow> f64_div (- dy') maxDistance;
          Some (s\<lparr>position := \<lparr>px = dx', py = dy'\<rparr>, moveDirection := \<lparr>px = mvx, py = mvy\<rparr>\<rparr>)
        })"

text \<open>
  The two halves of \<open>updatePosition\<close> in binary64 arithmetic, which are the same in both
  versions: the displacement of the pointer from the centre of the control, and the
  scaling of a displacement to the knob position and the emitted vector.
\<close>

definition displacement_f64 :: "DOMRect \<Rightarrow> real \<Rightarrow> real \<Rightarrow> (real \<times> real) option" where
  "displacement_f64 rect clientX clientY = do {
     hw \<leftarrow> f64_div (rect_width rect) 2;
     centerX \<leftarrow> f64_add (rect_left rect) hw;
     hh \<leftarrow> f64_div (rect_height rect) 2;
     centerY \<leftarrow> f64_add (rect_top rect) hh;
     dx \<leftarrow> f64_sub clientX centerX;
     dy \<leftarrow> f64_sub clientY centerY;
     Some (dx, dy)
   }"

definition scaleToRadius_f64 :: "real \<Rightarrow> real \<Rightarrow> (Point \<times> Point) option" where
  "scaleToRadius_f64 dx dy = do {
     xx \<leftarrow> f64_mul dx dx;
     yy \<leftarrow> f64_mul dy dy;
     ss \<leftarrow> f64_add xx yy;
     distance \<leftarrow> f64_sqrt ss;
     dx' \<leftarrow> (if distance > maxDistance
            then do { q \<leftarrow> f64_div dx distance; f64_mul q maxDistance } else Some dx);
     dy' \<leftarrow> (if distance > maxDistance
            then do { q \<leftarrow> f64_div dy distance; f64_mul q maxDistance } else Some dy);
     mvx \<leftarrow> f64_div dx' maxDistance;
     mvy \<leftarrow> f64_div (- dy') maxDistance;
     Some (\<lparr>px = dx', py = dy'\<rparr>, \<lparr>px = mvx, py = mvy\<rparr>)
   }"

section \<open>The movement integrator\<close>

text \<open>
  What the frame callback of \<open>Player\<close> reads and writes: the player position (the vector
  behind the \<open>position\<close> prop, \<open>positionRef.current\<close> in the second version), the camera,
  and the spotlight behind \<open>spotLightRef\<close> with the position of its target.
\<close>

record SpotLight =
  light_position :: Vector3
  target_position :: Vector3

record Scene =
  positionRef :: Vector3
  camera_position :: Vector3
  camera_quaternion :: Quaternion
  spotLightRef :: "SpotLight option"

text \<open>\<open>useFrame\<close> callback of \<^verbatim>\<open>src/components/HorrorGame.tsx\<close>; \<open>rotation\<close> is the prop
  copied into the camera after the move.\<close>

definition useFrame :: "real \<Rightarrow> Point \<Rightarrow> Euler \<Rightarrow> Scene \<Rightarrow> Scene" where
  "useFrame delta mv rotation s =
     (let moveSpeed = 3 * delta;
          forward = normalize_v3
            ((applyQuaternion \<lparr>vx = 0, vy = 0, vz = - 1\<rparr> (camera_quaternion s))\<lparr>vy := 0\<rparr>);
          right = normalize_v3
            ((applyQuaternion \<lparr>vx = 1, vy = 0, vz = 0\<rparr> (camera_quaternion s))\<lparr>vy := 0\<rparr>);
          p1 = addScaledVector (positionRef s) forward (py mv * moveSpeed);
          p2 = addScaledVector p1 right (px mv * moveSpeed)
      in s\<lparr>positionRef := p2,
           camera_position := p2,
           camera_quaternion := setFromEuler rotation,
           spotLightRef :=
             map_option (\<lambda>l. l\<lparr>light_position := p2,
                                target_position := add_v3 p2 (multiplyScalar forward 5)\<rparr>)
               (spotLightRef s)\<rparr>)"

text \<open>\<open>useFrame\<close> callback of the second version (\<^verbatim>\<open>part_000\<close>): the camera keeps its
  orientation.\<close>

definition useFrame_part000 :: "real \<Rightarrow> Point \<Rightarrow> Scene \<Rightarrow> Scene" where
  "useFrame_part000 delta mv s =
     (let moveSpeed = 3 * delta;
          forward = normalize_v3
            ((applyQuaternion \<lparr>vx = 0, vy = 0, vz = - 1\<rparr> (camera_quaternion s))\<lparr>vy := 0\<rparr>);
          right = normalize_v3
            ((applyQuaternion \<lparr>vx = 1, vy = 0, vz = 0\<rparr> (camera_quaternion s))\<lparr>vy := 0\<rparr>);
          p1 = addScaledVector (positionRef s) forward (py mv * moveSpeed);
          p2 = addScaledVector p1 right (px mv * moveSpeed)
      in s\<lparr>positionRef := p2,
           camera_position := p2,
           spotLightRef :=
             map_option (\<lambda>l. l\<lparr>light_position := p2,
                                target_position := add_v3 p2 (multiplyScalar forward 5)\<rparr>)
               (spotLightRef s)\<rparr>)"

text \<open>The integrator of \<^verbatim>\<open>part_000\<close> with checked arithmetic.\<close>

definition useFrame_part000_chk :: "real \<Rightarrow> Point \<Rightarrow> Scene \<Rightarrow> Scene option" where
  "useFrame_part000_chk delta mv s = do {
     let moveSpeed = 3 * delta;
     forward \<leftarrow> normalize_chk
       ((applyQuaternion \<lparr>vx = 0, vy = 0, vz = - 1\<rparr> (camera_quaternion s))\<lparr>vy := 0\<rparr>);
     right \<leftarrow> normalize_chk
       ((applyQuaternion \<lparr>vx = 1, vy = 0, vz = 0\<rparr> (camera_quaternion s))\<lparr>vy := 0\<rparr>);
     let p1 = addScaledVector (positionRef s) forward (py mv * moveSpeed);
     let p2 = addScaledVector p1 right (px mv * moveSpeed);
     Some (s\<lparr>positionRef := p2,
             camera_position := p2,
             spotLightRef :=
               map_option (\<lambda>l. l\<lparr>light_position := p2,
                                  target_position := add_v3 p2 (multiplyScalar forward 5)\<rparr>)
                 (spotLightRef s)\<rparr>)
   }"

text \<open>The two basis vectors of the callbacks, \<open>forward\<close> and \<open>right\<close>, as functions of the
  camera orientation.\<close>

definition forward_of :: "Quaternion \<Rightarrow> Vector3" where
  "forward_of q = normalize_v3 ((applyQuaternion \<lparr>vx = 0, vy = 0, vz = - 1\<rparr> q)\<lparr>vy := 0\<rparr>)"

definition right_of :: "Quaternion \<Rightarrow> Vector3" where
  "right_of q = normalize_v3 ((applyQuaternion \<lparr>vx = 1, vy = 0, vz = 0\<rparr> q)\<lparr>vy := 0\<rparr>)"

text \<open>
  The render loop: one callback per frame. A frame carries its elapsed time, the
  \<open>moveDirection\<close> the parent holds at that frame, and the orientation the camera has
  when the callback starts.
\<close>

type_synonym Frame = "real \<times> Point \<times> Quaternion"

fun frames :: "Euler \<Rightarrow> Frame list \<Rightarrow> Scene \<Rightarrow> Scene" where
  "frames rotation [] s = s"
| "frames rotation ((delta, mv, q) # fs) s =
     frames rotation fs (useFrame delta mv rotation (s\<lparr>camera_quaternion := q\<rparr>))"

fun frames_part000 :: "Frame list \<Rightarrow> Scene \<Rightarrow> Scene" where
  "frames_part000 [] s = s"
| "frames_part000 ((delta, mv, q) # fs) s =
     frames_part000 fs (useFrame_part000 delta mv (s\<lparr>camera_quaternion := q\<rparr>))"

text \<open>The starting position of the player, \<open>new THREE.Vector3(0, 1.6, 10)\<close>.\<close>

definition initialPosition :: Vector3 where
  "initialPosition = \<lparr>vx = 0, vy = 16 / 10, vz = 10\<rparr>"

section \<open>Concrete inputs\<close>

text \<open>The default camera orientation, a camera turned about the vertical axis, a camera
  looking straight down, and a camera that is both pitched and rolled.\<close>

definition camera_default :: Quaternion where
  "camera_default = \<lparr>qx = 0, qy = 0, qz = 0, qw = 1\<rparr>"

definition yawed :: Quaternion where
  "yawed = \<lparr>qx = 0, qy = 3 / 5, qz = 0, qw = 4 / 5\<rparr>"

definition straight_down :: Quaternion where
  "straight_down = \<lparr>qx = - 1 / 2, qy = - 1 / 2, qz = - 1 / 2, qw = 1 / 2\<rparr>"

definition rolled :: Quaternion where
  "rolled = \<lparr>qx = - 7 / 10, qy = - 1 / 2, qz = - 1 / 10, qw = 1 / 2\<rparr>"

definition scene_at :: "Quaternion \<Rightarrow> Scene" where
  "scene_at q = \<lparr>positionRef = initialPosition, camera_position = initialPosition,
                 camera_quaternion = q, spotLightRef = None\<rparr>"

definition no_rotation :: Euler where
  "no_rotation = \<lparr>ex = 0, ey = 0, ez = 0\<rparr>"

definition idle_joystick :: Joystick where
  "idle_joystick = \<lparr>isDragging = False, position = \<lparr>px = 0, py = 0\<rparr>,
     joystickRef = Some \<lparr>rect_left = 32, rect_top = 600, rect_width = 128, rect_height = 128\<rparr>,
     moveDirection = \<lparr>px = 0, py = 0\<rparr>\<rparr>"

definition control_rect :: DOMRect where
  "control_rect = \<lparr>rect_left = 32, rect_top = 600, rect_width = 128, rect_height = 128\<rparr>"

definition dragging_joystick :: Joystick where
  "dragging_joystick = \<lparr>isDragging = True, position = \<lparr>px = 40, py = 0\<rparr>,
     joystickRef = Some \<lparr>rect_left = 32, rect_top = 600, rect_width = 128, rect_height = 128\<rparr>,
     moveDirection = \<lparr>px = 1, py = 0\<rparr>\<rparr>"

section \<open>Arithmetic of lengths\<close>

lemma sqrt_eqI: "0 \<le> b \<Longrightarrow> b * b = a \<Longrightarrow> sqrt a = (b::real)"
  by (metis real_sqrt_abs2 abs_of_nonneg)


lemma sqrt_scaled:
  fixes k a b :: real
  assumes "0 < k"
  shows "sqrt ((k * a) * (k * a) + 0 * 0 + (k * b) * (k * b)) = k * sqrt (a * a + 0 * 0 + b * b)"
proof -
  have "(k * a) * (k * a) + 0 * 0 + (k * b) * (k * b) = (k * k) * (a * a + 0 * 0 + b * b)"
    by (simp add: algebra_simps)
  then have "sqrt ((k * a) * (k * a) + 0 * 0 + (k * b) * (k * b)) =
             sqrt ((k * k) * (a * a + 0 * 0 + b * b))"
    by (simp only:)
  also have "\<dots> = sqrt (k * k) * sqrt (a * a + 0 * 0 + b * b)"
    by (rule real_sqrt_mult)
  also have "sqrt (k * k) = k" using assms by simp
  finally show ?thesis .
qed



lemma length_zero_iff:
  assumes "vy v = 0"
  shows "length_v3 v = 0 \<longleftrightarrow> vx v = 0 \<and> vz v = 0"
proof -
  have "length_v3 v = sqrt (vx v * vx v + vz v * vz v)"
    using assms by (simp add: length_v3_def)
  moreover have "vx v * vx v + vz v * vz v = 0 \<longleftrightarrow> vx v = 0 \<and> vz v = 0"
    by (simp add: add_nonneg_eq_0_iff)
  ultimately show ?thesis by simp
qed



lemma normalize_vy: "vy v = 0 \<Longrightarrow> vy (normalize_v3 v) = 0"
  by (simp add: normalize_v3_def divideScalar_def multiplyScalar_def)


lemma addScaledVector_zero: "addScaledVector p v 0 = p"
  by (simp add: addScaledVector_def)

section \<open>One step of the integrator\<close>

lemma forward_of_vy: "vy (forward_of q) = 0"
  by (simp add: forward_of_def normalize_vy)

lemma right_of_vy: "vy (right_of q) = 0"
  by (simp add: right_of_def normalize_vy)

lemma useFrame_positionRef:
  "positionRef (useFrame delta mv rotation s) =
     addScaledVector
       (addScaledVector (positionRef s) (forward_of (camera_quaternion s)) (py mv * (3 * delta)))
       (right_of (camera_quaternion s)) (px mv * (3 * delta))"
  by (simp add: useFrame_def Let_def forward_of_def right_of_def)

lemma useFrame_part000_positionRef:
  "positionRef (useFrame_part000 delta mv s) =
     addScaledVector
       (addScaledVector (positionRef s) (forward_of (camera_quaternion s)) (py mv * (3 * delta)))
       (right_of (camera_quaternion s)) (px mv * (3 * delta))"
  by (simp add: useFrame_part000_def Let_def forward_of_def right_of_def)









lemma no_rotation_is_default: "setFromEuler no_rotation = camera_default"
  by (simp add: setFromEuler_def no_rotation_def camera_default_def)


section \<open>Frames without input, and the player's height\<close>

lemma useFrame_idle:
  "positionRef (useFrame delta \<lparr>px = 0, py = 0\<rparr> rotation s) = positionRef s"
  by (simp add: useFrame_positionRef addScaledVector_zero)

lemma useFrame_part000_idle:
  "positionRef (useFrame_part000 delta \<lparr>px = 0, py = 0\<rparr> s) = positionRef s"
  by (simp add: useFrame_part000_positionRef addScaledVector_zero)

lemma frames_idle:
  "\<forall>f \<in> set fs. fst (snd f) = \<lparr>px = 0, py = 0\<rparr> \<Longrightarrow>
     positionRef (frames rotation fs s) = positionRef s"
proof (induction fs arbitrary: s)
  case Nil
  show ?case by simp
next
  case (Cons f fs)
  obtain delta mv q where f: "f = (delta, mv, q)" by (cases f)
  from Cons.prems f have mv: "mv = \<lparr>px = 0, py = 0\<rparr>" by simp
  from Cons.prems have rest: "\<forall>g \<in> set fs. fst (snd g) = \<lparr>px = 0, py = 0\<rparr>" by simp
  show ?case
    unfolding f frames.simps Cons.IH [OF rest] mv useFrame_idle by simp
qed

lemma frames_part000_idle:
  "\<forall>f \<in> set fs. fst (snd f) = \<lparr>px = 0, py = 0\<rparr> \<Longrightarrow>
     positionRef (frames_part000 fs s) = positionRef s"
proof (induction fs arbitrary: s)
  case Nil
  show ?case by simp
next
  case (Cons f fs)
  obtain delta mv q where f: "f = (delta, mv, q)" by (cases f)
  from Cons.prems f have mv: "mv = \<lparr>px = 0, py = 0\<rparr>" by simp
  from Cons.prems have rest: "\<forall>g \<in> set fs. fst (snd g) = \<lparr>px = 0, py = 0\<rparr>" by simp
  show ?case
    unfolding f frames_part000.simps Cons.IH [OF rest] mv useFrame_part000_idle by simp
qed

text \<open>
  C7: with the input \<open>(0, 0)\<close> one step leaves the player position exactly as it was, for
  every elapsed time and camera orientation, in both versions; hence so does any sequence
  of frames that all carry the input \<open>(0, 0)\<close>.
\<close>

theorem zero_input_keeps_position:
  "positionRef (useFrame delta \<lparr>px = 0, py = 0\<rparr> rotation s) = positionRef s \<and>
   positionRef (useFrame_part000 delta \<lparr>px = 0, py = 0\<rparr> s) = positionRef s \<and>
   ((\<forall>f \<in> set fs. fst (snd f) = \<lparr>px = 0, py = 0\<rparr>) \<longrightarrow>
      positionRef (frames rotation fs s) = positionRef s \<and>
      positionRef (frames_part000 fs s) = positionRef s)"
  by (simp add: useFrame_idle useFrame_part000_idle frames_idle frames_part000_idle)

theorem zero_input_keeps_position_witness:
  "positionRef (frames no_rotation
      [(1 / 60, \<lparr>px = 0, py = 0\<rparr>, yawed), (1 / 30, \<lparr>px = 0, py = 0\<rparr>, rolled)]
      (scene_at camera_default)) = initialPosition \<and>
   positionRef (frames_part000
      [(1 / 60, \<lparr>px = 0, py = 0\<rparr>, yawed), (1 / 30, \<lparr>px = 0, py = 0\<rparr>, rolled)]
      (scene_at camera_default)) = initialPosition"
proof -
  let ?fs = "[(1 / 60, \<lparr>px = 0, py = 0\<rparr>, yawed), (1 / 30, \<lparr>px = 0, py = 0\<rparr>, rolled)]"
  have idle: "\<forall>f \<in> set ?fs. fst (snd f) = \<lparr>px = 0, py = 0\<rparr>" by simp
  have start: "positionRef (scene_at camera_default) = initialPosition"
    by (simp add: scene_at_def)
  from zero_input_keeps_position [where s = "scene_at camera_default" and fs = ?fs
      and rotation = no_rotation] idle
  have "positionRef (frames no_rotation ?fs (scene_at camera_default)) =
          positionRef (scene_at camera_default) \<and>
        positionRef (frames_part000 ?fs (scene_at camera_default)) =
          positionRef (scene_at camera_default)"
    by blast
  then show ?thesis unfolding start .
qed

lemma useFrame_height: "vy (positionRef (useFrame delta mv rotation s)) = vy (positionRef s)"
  by (simp add: useFrame_positionRef addScaledVector_def forward_of_vy right_of_vy)

lemma useFrame_part000_height: "vy (positionRef (useFrame_part000 delta mv s)) = vy (positionRef s)"
  by (simp add: useFrame_part000_positionRef addScaledVector_def forward_of_vy right_of_vy)

lemma frames_height: "vy (positionRef (frames rotation fs s)) = vy (positionRef s)"
proof (induction fs arbitrary: s)
  case Nil
  show ?case by simp
next
  case (Cons f fs)
  obtain delta mv q where f: "f = (delta, mv, q)" by (cases f)
  show ?case unfolding f frames.simps Cons.IH useFrame_height by simp
qed

lemma frames_part000_height: "vy (positionRef (frames_part000 fs s)) = vy (positionRef s)"
proof (induction fs arbitrary: s)
  case Nil
  show ?case by simp
next
  case (Cons f fs)
  obtain delta mv q where f: "f = (delta, mv, q)" by (cases f)
  show ?case unfolding f frames_part000.simps Cons.IH useFrame_part000_height by simp
qed

text \<open>
  C9: both movement basis vectors have vertical component zero, so a step never changes
  the vertical coordinate of the player position, whatever the input, the elapsed time
  and the camera orientation; started at \<open>(0, 1.6, 10)\<close>, the player is at height 1.6
  after any sequence of frames, in both versions.
\<close>

theorem height_is_invariant:
  "vy (forward_of q) = 0 \<and> vy (right_of q) = 0 \<and>
   vy (positionRef (useFrame delta mv rotation s)) = vy (positionRef s) \<and>
   vy (positionRef (useFrame_part000 delta mv s)) = vy (positionRef s) \<and>
   vy (positionRef (frames rotation fs (s\<lparr>positionRef := initialPosition\<rparr>))) = 16 / 10 \<and>
   vy (positionRef (frames_part000 fs (s\<lparr>positionRef := initialPosition\<rparr>))) = 16 / 10"
  by (simp add: forward_of_vy right_of_vy useFrame_height useFrame_part000_height
      frames_height frames_part000_height initialPosition_def)

theorem height_is_invariant_witness:
  "vy (positionRef (frames no_rotation
      [(1 / 60, \<lparr>px = 1, py = 0\<rparr>, yawed), (1 / 30, \<lparr>px = 3 / 5, py = - 4 / 5\<rparr>, rolled)]
      ((scene_at straight_down)\<lparr>positionRef := initialPosition\<rparr>))) = 16 / 10 \<and>
   vy (positionRef (frames_part000
      [(1 / 60, \<lparr>px = 1, py = 0\<rparr>, yawed), (1 / 30, \<lparr>px = 3 / 5, py = - 4 / 5\<rparr>, rolled)]
      ((scene_at straight_down)\<lparr>positionRef := initialPosition\<rparr>))) = 16 / 10"
  using height_is_invariant [where s = "scene_at straight_down" and rotation = no_rotation
      and fs = "[(1 / 60, \<lparr>px = 1, py = 0\<rparr>, yawed), (1 / 30, \<lparr>px = 3 / 5, py = - 4 / 5\<rparr>, rolled)]"]
  by blast

section \<open>The right vector against the forward vector\<close>

lemma normalize_quarter_turn:
  assumes k: "0 < k" and a: "vy a = 0" and b: "vy b = 0"
    and x: "vx a = k * - vz b" and z: "vz a = k * vx b"
  shows "normalize_v3 a = rotateY90 (normalize_v3 b)"
proof (cases "length_v3 b = 0")
  case True
  then have b0: "vx b = 0" "vz b = 0" using length_zero_iff [OF b] by simp_all
  then have a0: "vx a = 0" "vz a = 0" using x z by simp_all
  show ?thesis
    by (simp add: normalize_v3_def divideScalar_def multiplyScalar_def rotateY90_def
        length_v3_def a b a0 b0)
next
  case False
  define lb where "lb = length_v3 b"
  have lbpos: "lb > 0"
    using False unfolding lb_def length_v3_def
    by (metis less_eq_real_def real_sqrt_ge_zero add_nonneg_nonneg zero_le_square)
  have "length_v3 a = sqrt ((k * - vz b) * (k * - vz b) + 0 * 0 + (k * vx b) * (k * vx b))"
    by (simp add: length_v3_def a x z)
  also have "\<dots> = k * sqrt (- vz b * - vz b + 0 * 0 + vx b * vx b)"
    by (rule sqrt_scaled [OF k])
  also have "sqrt (- vz b * - vz b + 0 * 0 + vx b * vx b) = lb"
    by (simp add: lb_def length_v3_def b add.commute)
  finally have la: "length_v3 a = k * lb" .
  have la0: "length_v3 a \<noteq> 0" using la k lbpos by simp
  show ?thesis
    unfolding normalize_v3_def divideScalar_def multiplyScalar_def rotateY90_def
    using la0 False k lbpos
    by (simp add: la lb_def [symmetric] a b x z)
qed

lemma quarter_turn_no_roll:
  assumes u: "unit_quaternion q"
    and r0: "vy (applyQuaternion \<lparr>vx = 1, vy = 0, vz = 0\<rparr> q) = 0"
  shows "vy (applyQuaternion \<lparr>vx = 0, vy = 1, vz = 0\<rparr> q) * vx (applyQuaternion \<lparr>vx = 1, vy = 0, vz = 0\<rparr> q) =
           - vz (applyQuaternion \<lparr>vx = 0, vy = 0, vz = - 1\<rparr> q)"
    and "vy (applyQuaternion \<lparr>vx = 0, vy = 1, vz = 0\<rparr> q) * vz (applyQuaternion \<lparr>vx = 1, vy = 0, vz = 0\<rparr> q) =
           vx (applyQuaternion \<lparr>vx = 0, vy = 0, vz = - 1\<rparr> q)"
proof -
  define n where "n = qx q * qx q + qy q * qy q + qz q * qz q + qw q * qw q"
  have n1: "n = 1" using u by (simp add: unit_quaternion_def n_def)
  have "vy (applyQuaternion \<lparr>vx = 0, vy = 1, vz = 0\<rparr> q) * vx (applyQuaternion \<lparr>vx = 1, vy = 0, vz = 0\<rparr> q) =
          - vz (applyQuaternion \<lparr>vx = 0, vy = 0, vz = - 1\<rparr> q)
          + vy (applyQuaternion \<lparr>vx = 1, vy = 0, vz = 0\<rparr> q) * vx (applyQuaternion \<lparr>vx = 0, vy = 1, vz = 0\<rparr> q)
          + 4 * qz q * qz q * (n - 1)"
    unfolding n_def by (simp add: applyQuaternion_def Let_def algebra_simps)
  then show "vy (applyQuaternion \<lparr>vx = 0, vy = 1, vz = 0\<rparr> q) * vx (applyQuaternion \<lparr>vx = 1, vy = 0, vz = 0\<rparr> q) =
           - vz (applyQuaternion \<lparr>vx = 0, vy = 0, vz = - 1\<rparr> q)"
    by (simp only: r0 n1) simp
  have "vy (applyQuaternion \<lparr>vx = 0, vy = 1, vz = 0\<rparr> q) * vz (applyQuaternion \<lparr>vx = 1, vy = 0, vz = 0\<rparr> q) =
          vx (applyQuaternion \<lparr>vx = 0, vy = 0, vz = - 1\<rparr> q)
          + vy (applyQuaternion \<lparr>vx = 1, vy = 0, vz = 0\<rparr> q) * vz (applyQuaternion \<lparr>vx = 0, vy = 1, vz = 0\<rparr> q)
          - 4 * qx q * qz q * (n - 1)"
    unfolding n_def by (simp add: applyQuaternion_def Let_def algebra_simps)
  then show "vy (applyQuaternion \<lparr>vx = 0, vy = 1, vz = 0\<rparr> q) * vz (applyQuaternion \<lparr>vx = 1, vy = 0, vz = 0\<rparr> q) =
           vx (applyQuaternion \<lparr>vx = 0, vy = 0, vz = - 1\<rparr> q)"
    by (simp only: r0 n1) simp
qed

lemma quarter_turn_no_pitch:
  assumes u: "unit_quaternion q"
    and f0: "vy (applyQuaternion \<lparr>vx = 0, vy = 0, vz = - 1\<rparr> q) = 0"
  shows "vx (applyQuaternion \<lparr>vx = 1, vy = 0, vz = 0\<rparr> q) =
           vy (applyQuaternion \<lparr>vx = 0, vy = 1, vz = 0\<rparr> q) * - vz (applyQuaternion \<lparr>vx = 0, vy = 0, vz = - 1\<rparr> q)"
    and "vz (applyQuaternion \<lparr>vx = 1, vy = 0, vz = 0\<rparr> q) =
           vy (applyQuaternion \<lparr>vx = 0, vy = 1, vz = 0\<rparr> q) * vx (applyQuaternion \<lparr>vx = 0, vy = 0, vz = - 1\<rparr> q)"
proof -
  define n where "n = qx q * qx q + qy q * qy q + qz q * qz q + qw q * qw q"
  have n1: "n = 1" using u by (simp add: unit_quaternion_def n_def)
  have "vx (applyQuaternion \<lparr>vx = 1, vy = 0, vz = 0\<rparr> q) =
          vy (applyQuaternion \<lparr>vx = 0, vy = 1, vz = 0\<rparr> q) * - vz (applyQuaternion \<lparr>vx = 0, vy = 0, vz = - 1\<rparr> q)
          + vy (applyQuaternion \<lparr>vx = 0, vy = 0, vz = - 1\<rparr> q) * vz (applyQuaternion \<lparr>vx = 0, vy = 1, vz = 0\<rparr> q)
          - 4 * qx q * qx q * (n - 1)"
    unfolding n_def by (simp add: applyQuaternion_def Let_def algebra_simps)
  then show "vx (applyQuaternion \<lparr>vx = 1, vy = 0, vz = 0\<rparr> q) =
           vy (applyQuaternion \<lparr>vx = 0, vy = 1, vz = 0\<rparr> q) * - vz (applyQuaternion \<lparr>vx = 0, vy = 0, vz = - 1\<rparr> q)"
    by (simp only: f0 n1) simp
  have "vz (applyQuaternion \<lparr>vx = 1, vy = 0, vz = 0\<rparr> q) =
          vy (applyQuaternion \<lparr>vx = 0, vy = 1, vz = 0\<rparr> q) * vx (applyQuaternion \<lparr>vx = 0, vy = 0, vz = - 1\<rparr> q)
          - vy (applyQuaternion \<lparr>vx = 0, vy = 0, vz = - 1\<rparr> q) * vx (applyQuaternion \<lparr>vx = 0, vy = 1, vz = 0\<rparr> q)
          - 4 * qx q * qz q * (n - 1)"
    unfolding n_def by (simp add: applyQuaternion_def Let_def algebra_simps)
  then show "vz (applyQuaternion \<lparr>vx = 1, vy = 0, vz = 0\<rparr> q) =
           vy (applyQuaternion \<lparr>vx = 0, vy = 1, vz = 0\<rparr> q) * vx (applyQuaternion \<lparr>vx = 0, vy = 0, vz = - 1\<rparr> q)"
    by (simp only: f0 n1) simp
qed

lemma rolled_unit: "unit_quaternion rolled"
  by (simp add: unit_quaternion_def rolled_def)

lemma rolled_look:
  "applyQuaternion \<lparr>vx = 0, vy = 0, vz = - 1\<rparr> rolled = \<lparr>vx = 9 / 25, vy = - 4 / 5, vz = 12 / 25\<rparr>"
  by (simp add: rolled_def applyQuaternion_def Let_def)

lemma rolled_side:
  "applyQuaternion \<lparr>vx = 1, vy = 0, vz = 0\<rparr> rolled = \<lparr>vx = 12 / 25, vy = 3 / 5, vz = 16 / 25\<rparr>"
  by (simp add: rolled_def applyQuaternion_def Let_def)

lemma rolled_look_length: "length_v3 \<lparr>vx = 9 / 25, vy = 0, vz = 12 / 25\<rparr> = 3 / 5"
  unfolding length_v3_def by (rule sqrt_eqI) simp_all

lemma rolled_side_length: "length_v3 \<lparr>vx = 12 / 25, vy = 0, vz = 16 / 25\<rparr> = 4 / 5"
  unfolding length_v3_def by (rule sqrt_eqI) simp_all

lemma rolled_forward: "forward_of rolled = \<lparr>vx = 3 / 5, vy = 0, vz = 4 / 5\<rparr>"
  by (simp add: forward_of_def rolled_look normalize_v3_def rolled_look_length divideScalar_def
      multiplyScalar_def)

lemma rolled_right: "right_of rolled = \<lparr>vx = 3 / 5, vy = 0, vz = 4 / 5\<rparr>"
  by (simp add: right_of_def rolled_side normalize_v3_def rolled_side_length divideScalar_def
      multiplyScalar_def)

lemma yawed_unit: "unit_quaternion yawed"
  by (simp add: unit_quaternion_def yawed_def)

lemma yawed_upright: "0 < vy (applyQuaternion \<lparr>vx = 0, vy = 1, vz = 0\<rparr> yawed)"
  by (simp add: yawed_def applyQuaternion_def Let_def)

lemma yawed_no_roll: "vy (applyQuaternion \<lparr>vx = 1, vy = 0, vz = 0\<rparr> yawed) = 0"
  by (simp add: yawed_def applyQuaternion_def Let_def)

lemma right_quarter_turn:
  assumes u: "unit_quaternion q"
    and up: "0 < vy (applyQuaternion \<lparr>vx = 0, vy = 1, vz = 0\<rparr> q)"
    and level: "vy (applyQuaternion \<lparr>vx = 1, vy = 0, vz = 0\<rparr> q) = 0 \<or>
                vy (applyQuaternion \<lparr>vx = 0, vy = 0, vz = - 1\<rparr> q) = 0"
  shows "right_of q = rotateY90 (forward_of q)"
proof -
  define U where "U = vy (applyQuaternion \<lparr>vx = 0, vy = 1, vz = 0\<rparr> q)"
  define R where "R = applyQuaternion \<lparr>vx = 1, vy = 0, vz = 0\<rparr> q"
  define F where "F = applyQuaternion \<lparr>vx = 0, vy = 0, vz = - 1\<rparr> q"
  have Upos: "0 < U" using up by (simp add: U_def)
  from level show ?thesis
  proof
    assume r0: "vy (applyQuaternion \<lparr>vx = 1, vy = 0, vz = 0\<rparr> q) = 0"
    have e1: "U * vx R = - vz F" and e2: "U * vz R = vx F"
      unfolding U_def R_def F_def by (rule quarter_turn_no_roll [OF u r0])+
    have k: "0 < 1 / U" using Upos by simp
    have x: "vx (R\<lparr>vy := 0\<rparr>) = (1 / U) * - vz (F\<lparr>vy := 0\<rparr>)"
      using e1 Upos by (simp add: field_simps)
    have z: "vz (R\<lparr>vy := 0\<rparr>) = (1 / U) * vx (F\<lparr>vy := 0\<rparr>)"
      using e2 Upos by (simp add: field_simps)
    show ?thesis
      unfolding right_of_def forward_of_def R_def [symmetric] F_def [symmetric]
      by (rule normalize_quarter_turn [OF k _ _ x z]) simp_all
  next
    assume f0: "vy (applyQuaternion \<lparr>vx = 0, vy = 0, vz = - 1\<rparr> q) = 0"
    have e1: "vx R = U * - vz F" and e2: "vz R = U * vx F"
      unfolding U_def R_def F_def by (rule quarter_turn_no_pitch [OF u f0])+
    have x: "vx (R\<lparr>vy := 0\<rparr>) = U * - vz (F\<lparr>vy := 0\<rparr>)" using e1 by simp
    have z: "vz (R\<lparr>vy := 0\<rparr>) = U * vx (F\<lparr>vy := 0\<rparr>)" using e2 by simp
    show ?thesis
      unfolding right_of_def forward_of_def R_def [symmetric] F_def [symmetric]
      by (rule normalize_quarter_turn [OF Upos _ _ x z]) simp_all
  qed
qed

text \<open>
  C5, as stated, fails: for a camera that is pitched and rolled (a unit quaternion, both
  horizontal projections of non-zero length) the code's \<open>right\<close> is not \<open>forward\<close> turned
  by a quarter about the vertical axis, in either sense; at this orientation the two
  vectors are even equal.
\<close>

theorem right_not_quarter_turn_counterexample:
  "unit_quaternion rolled \<and>
   length_v3 ((applyQuaternion \<lparr>vx = 0, vy = 0, vz = - 1\<rparr> rolled)\<lparr>vy := 0\<rparr>) \<noteq> 0 \<and>
   length_v3 ((applyQuaternion \<lparr>vx = 1, vy = 0, vz = 0\<rparr> rolled)\<lparr>vy := 0\<rparr>) \<noteq> 0 \<and>
   right_of rolled \<noteq> rotateY90 (forward_of rolled) \<and>
   right_of rolled \<noteq> rotateY90_back (forward_of rolled) \<and>
   right_of rolled = forward_of rolled"
  by (simp add: rolled_unit rolled_look rolled_side rolled_look_length rolled_side_length
      rolled_forward rolled_right rotateY90_def rotateY90_back_def)

text \<open>
  C5, amended: for every camera orientation given by a unit quaternion whose up axis
  points upwards and whose right axis or look axis is horizontal (a camera that is not
  rolled, or not pitched), the \<open>right\<close> vector the integrator computes equals its
  \<open>forward\<close> vector turned by a quarter about the vertical axis, in the sense that takes
  \<open>(0, 0, -1)\<close> to \<open>(1, 0, 0)\<close>.
\<close>

theorem right_is_forward_turned:
  assumes u: "unit_quaternion q"
    and up: "0 < vy (applyQuaternion \<lparr>vx = 0, vy = 1, vz = 0\<rparr> q)"
    and level: "vy (applyQuaternion \<lparr>vx = 1, vy = 0, vz = 0\<rparr> q) = 0 \<or>
                vy (applyQuaternion \<lparr>vx = 0, vy = 0, vz = - 1\<rparr> q) = 0"
  shows "right_of q = rotateY90 (forward_of q)"
  by (rule right_quarter_turn [OF u up level])

theorem right_is_forward_turned_witness:
  "unit_quaternion yawed \<and>
   0 < vy (applyQuaternion \<lparr>vx = 0, vy = 1, vz = 0\<rparr> yawed) \<and>
   vy (applyQuaternion \<lparr>vx = 1, vy = 0, vz = 0\<rparr> yawed) = 0 \<and>
   right_of yawed = rotateY90 (forward_of yawed)"
  using right_is_forward_turned [OF yawed_unit yawed_upright disjI1 [OF yawed_no_roll]]
    yawed_unit yawed_upright yawed_no_roll
  by blast

section \<open>The step straight ahead\<close>











section \<open>No NaN and no infinity\<close>

lemma js_sqrt_sumsq: "js_sqrt (a * a + b * b) = Some (sqrt (a * a + b * b))"
  by (simp add: js_sqrt_def not_less)

lemma js_div_nonzero: "b \<noteq> 0 \<Longrightarrow> js_div a b = Some (a / b)"
  by (simp add: js_div_def)

lemma js_div_2: "js_div a 2 = Some (a / 2)"
  by (simp add: js_div_def)

lemma js_div_maxDistance: "js_div a maxDistance = Some (a / maxDistance)"
  by (simp add: js_div_def maxDistance_def)

lemma normalize_chk_total: "normalize_chk v = Some (normalize_v3 v)"
  by (simp add: normalize_chk_def normalize_v3_def length_chk_def js_sqrt_def length_v3_def
      divideScalar_chk_def divideScalar_def js_div_def not_less)

lemma useFrame_part000_chk_total:
  "useFrame_part000_chk delta mv s = Some (useFrame_part000 delta mv s)"
  by (simp add: useFrame_part000_chk_def useFrame_part000_def normalize_chk_total forward_of_def
      right_of_def Let_def)

lemma updatePosition_part000_chk_total:
  "updatePosition_part000_chk x y s = Some (updatePosition_part000 x y s)"
proof (cases "joystickRef s")
  case None
  then show ?thesis by (simp add: updatePosition_part000_chk_def updatePosition_part000_def)
next
  case (Some rect)
  define dx where "dx = x - (rect_left rect + rect_width rect / 2)"
  define dy where "dy = y - (rect_top rect + rect_height rect / 2)"
  define d where "d = sqrt (dx * dx + dy * dy)"
  show ?thesis
  proof (cases "d > maxDistance")
    case True
    then have nz: "d \<noteq> 0" by (simp add: maxDistance_def)
    from True nz show ?thesis
      unfolding updatePosition_part000_chk_def updatePosition_part000_def
      by (simp add: Some js_div_2 js_sqrt_sumsq js_div_maxDistance js_div_nonzero Let_def
          dx_def [symmetric] dy_def [symmetric] d_def [symmetric])
  next
    case False
    then show ?thesis
      unfolding updatePosition_part000_chk_def updatePosition_part000_def
      by (simp add: Some js_div_2 js_sqrt_sumsq js_div_maxDistance Let_def
          dx_def [symmetric] dy_def [symmetric] d_def [symmetric])
  qed
qed

text \<open>
  C6: with every division and square root checked, the mapper and the integrator still
  return a result on every input, and it is the result of the unchecked code: the mapper
  divides by the displacement magnitude only when it exceeds 40, and \<open>normalize\<close> divides
  by 1 when the projected vector has length zero, as it does for a camera looking
  straight down.
\<close>

theorem mapper_and_integrator_total:
  "updatePosition_part000_chk clientX clientY j = Some (updatePosition_part000 clientX clientY j) \<and>
   useFrame_part000_chk delta mv s = Some (useFrame_part000 delta mv s) \<and>
   normalize_chk v = Some (normalize_v3 v) \<and>
   useFrame_part000_chk delta mv (scene_at straight_down) =
     Some (useFrame_part000 delta mv (scene_at straight_down))"
  by (simp add: updatePosition_part000_chk_total useFrame_part000_chk_total normalize_chk_total)

section \<open>The two versions of the component\<close>

lemma updatePosition_part000_eq: "updatePosition_part000 clientX clientY s = updatePosition clientX clientY s"
  by (simp add: updatePosition_def updatePosition_part000_def)

lemma handleEnd_part000_eq: "handleEnd_part000 s = handleEnd s"
  by (simp add: handleEnd_def handleEnd_part000_def)

lemma dispatch_part000_eq: "dispatch_part000 e s = dispatch e s"
  by (cases e)
    (simp_all add: handleStart_def handleStart_part000_def handleMove_def handleMove_part000_def
      handleEnd_part000_eq updatePosition_part000_eq)

lemma useFrame_versions:
  "useFrame delta mv rotation s =
     (useFrame_part000 delta mv s)\<lparr>camera_quaternion := setFromEuler rotation\<rparr>"
  by (simp add: useFrame_def useFrame_part000_def Let_def)

text \<open>
  C10: the two versions implement the same mapper and the same integrator. For the same
  pointer coordinates and the same state (with it, the same bounding rectangle),
  \<open>updatePosition\<close> returns the same state in both, so it emits the same vector; for the
  same scene, input and elapsed time the two callbacks leave the same player position,
  and differ only in that the first copies the \<open>rotation\<close> prop into the camera.
\<close>

theorem versions_agree:
  "updatePosition_part000 clientX clientY j = updatePosition clientX clientY j \<and>
   moveDirection (updatePosition_part000 clientX clientY j) =
     moveDirection (updatePosition clientX clientY j) \<and>
   useFrame delta mv rotation s =
     (useFrame_part000 delta mv s)\<lparr>camera_quaternion := setFromEuler rotation\<rparr> \<and>
   positionRef (useFrame delta mv rotation s) = positionRef (useFrame_part000 delta mv s) \<and>
   camera_position (useFrame delta mv rotation s) = camera_position (useFrame_part000 delta mv s) \<and>
   spotLightRef (useFrame delta mv rotation s) = spotLightRef (useFrame_part000 delta mv s)"
  by (simp add: updatePosition_part000_eq useFrame_versions)

section \<open>Rounding to binary64\<close>

lemma round_even_near:
  assumes "\<bar>m - of_int n\<bar> < 1 / 2"
  shows "round_even m = n"
proof -
  have "\<lfloor>m\<rfloor> = n \<or> \<lfloor>m\<rfloor> = n - 1" using assms by linarith
  then show ?thesis
  proof
    assume f: "\<lfloor>m\<rfloor> = n"
    then have "m - of_int n < 1 / 2" using assms by linarith
    then show ?thesis by (simp add: round_even_def f Let_def)
  next
    assume f: "\<lfloor>m\<rfloor> = n - 1"
    have "m - of_int n > - (1 / 2)" using assms by linarith
    then have "1 / 2 < m - of_int (n - 1)" by simp
    then show ?thesis by (simp add: round_even_def f Let_def)
  qed
qed

lemma round_even_int: "round_even (of_int n) = n"
  by (rule round_even_near) simp

lemma round_even_error: "\<bar>of_int (round_even m) - m\<bar> \<le> 1 / 2"
proof -
  have "of_int \<lfloor>m\<rfloor> \<le> m" "m < of_int \<lfloor>m\<rfloor> + 1" by linarith+
  then show ?thesis
    by (auto simp add: round_even_def Let_def)
qed

lemma floor_log2:
  assumes "2 powi k \<le> \<bar>x\<bar>" and "\<bar>x\<bar> < 2 powi (k + 1)"
  shows "\<lfloor>log 2 \<bar>x\<bar>\<rfloor> = k"
proof -
  have pos: "0 < \<bar>x\<bar>" using assms(1) zero_less_power_int [of "2::real" k] by linarith
  have "(2::real) powr (of_int k) = 2 powi k" by (simp add: powr_real_of_int')
  moreover have "(2::real) powr (of_int k + 1) = 2 powi (k + 1)"
    using powr_real_of_int' [of "2::real" "k + 1"] by simp
  ultimately show ?thesis
    using assms floor_log_eq_powr_iff [OF pos, of 2 k] by simp
qed

lemma f64_ulp_exponent_eq:
  assumes "- 1074 \<le> E" and "2 powi (E + 52) \<le> \<bar>x\<bar>" and "\<bar>x\<bar> < 2 powi (E + 53)"
  shows "f64_ulp_exponent x = E"
proof -
  have "\<lfloor>log 2 \<bar>x\<bar>\<rfloor> = E + 52"
    by (rule floor_log2) (use assms in \<open>simp_all add: add.commute\<close>)
  then show ?thesis using assms(1) by (simp add: f64_ulp_exponent_def)
qed

lemma f64_round_near:
  assumes "- 1074 \<le> E" and "2 powi (E + 52) \<le> \<bar>x\<bar>" and "\<bar>x\<bar> < 2 powi (E + 53)"
    and "\<bar>x / 2 powi E - of_int n\<bar> < 1 / 2"
  shows "f64_round x = of_int n * 2 powi E"
proof -
  have "0 < \<bar>x\<bar>" using assms(2) zero_less_power_int [of "2::real" "E + 52"] by linarith
  then have nz: "x \<noteq> 0" by simp
  show ?thesis
    unfolding f64_round_def f64_ulp_exponent_eq [OF assms(1-3)] round_even_near [OF assms(4)]
    using nz by simp
qed

lemma f64_near:
  assumes "- 1074 \<le> E" and "2 powi (E + 52) \<le> \<bar>x\<bar>" and "\<bar>x\<bar> < 2 powi (E + 53)"
    and "\<bar>x / 2 powi E - of_int n\<bar> < 1 / 2"
    and "\<bar>of_int n * 2 powi E\<bar> < (2::real) ^ 1024"
  shows "f64 x = Some (of_int n * 2 powi E)"
  unfolding f64_def f64_round_near [OF assms(1-4)] using assms(5) by simp

lemma f64_zero: "f64 0 = Some 0"
  by (simp add: f64_def f64_round_def)

lemma f64_round_int:
  assumes "\<bar>n\<bar> < 2 ^ 53"
  shows "f64_round (of_int n) = of_int n"
proof (cases "n = 0")
  case True
  then show ?thesis by (simp add: f64_round_def)
next
  case False
  define e where "e = f64_ulp_exponent (of_int n)"
  have one: "1 \<le> \<bar>real_of_int n\<bar>" using False by linarith
  then have "0 \<le> log 2 \<bar>real_of_int n\<bar>" by simp
  then have lo: "- 52 \<le> e" by (simp add: e_def f64_ulp_exponent_def)
  have "\<bar>real_of_int n\<bar> < 2 ^ 53" using assms by (metis of_int_abs of_int_less_numeral_power_cancel_iff)
  then have "log 2 \<bar>real_of_int n\<bar> < 53"
    using one by (simp add: log_less_iff powr_realpow [symmetric])
  then have "\<lfloor>log 2 \<bar>real_of_int n\<bar>\<rfloor> < 53" by linarith
  then have hi: "e \<le> 0" by (simp add: e_def f64_ulp_exponent_def)
  define k where "k = nat (- e)"
  have ek: "e = - int k" using hi by (simp add: k_def)
  have p: "(2::real) powi e = 1 / 2 ^ k" by (simp add: ek power_int_minus_divide)
  have "real_of_int n / 2 powi e = of_int (n * 2 ^ k)" by (simp add: p)
  then have "round_even (real_of_int n / 2 powi e) = n * 2 ^ k"
    by (simp only: round_even_int)
  then show ?thesis
    using False by (simp add: f64_round_def e_def [symmetric] p)
qed

lemma f64_int: "\<bar>n\<bar> < 2 ^ 53 \<Longrightarrow> f64 (of_int n) = Some (of_int n)"
proof -
  assume a: "\<bar>n\<bar> < 2 ^ 53"
  then have "\<bar>real_of_int n\<bar> < 2 ^ 53" by (metis of_int_abs of_int_less_numeral_power_cancel_iff)
  moreover have "(2::real) ^ 53 < 2 ^ 1024" by simp
  ultimately have "\<bar>real_of_int n\<bar> < 2 ^ 1024" by linarith
  then show ?thesis by (simp add: f64_def f64_round_int [OF a])
qed

lemma f64_numeral: "\<bar>numeral w :: int\<bar> < 2 ^ 53 \<Longrightarrow> f64 (numeral w) = Some (numeral w)"
  using f64_int [of "numeral w"] by simp

lemma f64_neg_numeral: "\<bar>numeral w :: int\<bar> < 2 ^ 53 \<Longrightarrow> f64 (- numeral w) = Some (- numeral w)"
  using f64_int [of "- numeral w"] by simp

lemma f64_one: "f64 1 = Some 1"
  using f64_int [of 1] by simp

lemma sqrt_in:
  fixes lo hi a :: real
  assumes "0 \<le> lo" and "lo * lo < a" and "a < hi * hi" and "0 \<le> hi"
  shows "lo < sqrt a \<and> sqrt a < hi"
proof
  have "lo\<^sup>2 < a" using assms(2) by (simp add: power2_eq_square)
  then show "lo < sqrt a" by (rule real_less_rsqrt)
  have "a < hi\<^sup>2" using assms(3) by (simp add: power2_eq_square)
  then show "sqrt a < hi" using assms(4) by (simp add: real_less_lsqrt)
qed

lemma int_bounds_real:
  fixes n :: int
  assumes "2 ^ 52 < n" and "n < 2 ^ 53"
  shows "(2::real) ^ 52 + 1 \<le> of_int n" and "real_of_int n \<le> 2 ^ 53 - 1"
proof -
  have "(2::int) ^ 52 + 1 \<le> n" using assms(1) by linarith
  then have "real_of_int (2 ^ 52 + 1) \<le> of_int n" by (simp only: of_int_le_iff)
  then show "(2::real) ^ 52 + 1 \<le> of_int n" by simp
  have "n \<le> (2::int) ^ 53 - 1" using assms(2) by linarith
  then have "real_of_int n \<le> of_int (2 ^ 53 - 1)" by (simp only: of_int_le_iff)
  then show "real_of_int n \<le> 2 ^ 53 - 1" by simp
qed

lemma f64_between:
  fixes x :: real
  assumes E: "- 1074 \<le> E" "E \<le> 970" and n: "2 ^ 52 < n" "n < 2 ^ 53"
    and lo: "(of_int n - 1 / 2) * 2 powi E < x" and hi: "x < (of_int n + 1 / 2) * 2 powi E"
  shows "f64 x = Some (of_int n * 2 powi E)"
proof (rule f64_near [OF E(1)])
  define p :: real where "p = 2 powi E"
  have p: "0 < p" by (simp add: p_def)
  note n1 = int_bounds_real(1) [OF n] and n2 = int_bounds_real(2) [OF n]
  have "2 ^ 52 * p \<le> (of_int n - 1 / 2) * p"
    using n1 p by (intro mult_right_mono) linarith+
  then have xlo: "2 ^ 52 * p < x" using lo unfolding p_def by linarith
  have "(of_int n + 1 / 2) * p \<le> 2 ^ 53 * p"
    using n2 p by (intro mult_right_mono) linarith+
  then have xhi: "x < 2 ^ 53 * p" using hi unfolding p_def by linarith
  have "0 < 2 ^ 52 * p" using p by simp
  then have xpos: "0 < x" using xlo by linarith
  have e52: "(2::real) powi (E + 52) = 2 ^ 52 * p"
    unfolding p_def by (simp add: power_int_add)
  have e53: "(2::real) powi (E + 53) = 2 ^ 53 * p"
    unfolding p_def by (simp add: power_int_add)
  show "2 powi (E + 52) \<le> \<bar>x\<bar>" unfolding e52 using xlo xpos by linarith
  show "\<bar>x\<bar> < 2 powi (E + 53)" unfolding e53 using xhi xpos by linarith
  have "of_int n - 1 / 2 < x / p" using lo p unfolding p_def by (simp add: pos_less_divide_eq)
  moreover have "x / p < of_int n + 1 / 2" using hi p unfolding p_def by (simp add: pos_divide_less_eq)
  ultimately show "\<bar>x / 2 powi E - of_int n\<bar> < 1 / 2" unfolding p_def by linarith
  have npos: "0 < real_of_int n" using n1 by (smt (verit) zero_less_power)
  have "\<bar>real_of_int n * p\<bar> = real_of_int n * p"
    using npos p by (simp add: abs_mult)
  also have "\<dots> < 2 ^ 53 * p" using n2 p by (intro mult_strict_right_mono) linarith+
  also have "\<dots> = 2 powi (E + 53)" by (simp only: e53)
  also have "\<dots> \<le> 2 powi 1024"
    using E(2) by (intro power_int_increasing) simp_all
  also have "\<dots> = 2 ^ 1024" by (simp only: power_int_numeral)
  finally show "\<bar>real_of_int n * 2 powi E\<bar> < 2 ^ 1024" unfolding p_def .
qed

lemma round_even_tie:
  assumes "m - of_int \<lfloor>m\<rfloor> = 1 / 2"
  shows "round_even m = (if even \<lfloor>m\<rfloor> then \<lfloor>m\<rfloor> else \<lfloor>m\<rfloor> + 1)"
  using assms by (simp add: round_even_def Let_def)

lemma round_even_minus: "round_even (- m) = - round_even m"
proof (cases "m - of_int \<lfloor>m\<rfloor> = 1 / 2")
  case True
  define f where "f = \<lfloor>m\<rfloor>"
  have m: "m = of_int f + 1 / 2" using True by (simp add: f_def)
  have fl: "\<lfloor>- m\<rfloor> = - f - 1"
    unfolding m by (rule floor_unique) simp_all
  have "- m - of_int (- f - 1) = 1 / 2" by (subst m) simp
  then have half: "- m - of_int \<lfloor>- m\<rfloor> = 1 / 2" by (simp only: fl)
  have a: "round_even m = (if even f then f else f + 1)"
    using round_even_tie [OF True] by (simp add: f_def)
  have b: "round_even (- m) = (if even (- f - 1) then - f - 1 else - f - 1 + 1)"
    using round_even_tie [OF half] by (simp add: fl)
  show ?thesis unfolding a b by simp
next
  case False
  define n where "n = round_even m"
  have e: "\<bar>of_int n - m\<bar> \<le> 1 / 2" unfolding n_def by (rule round_even_error)
  have fl: "of_int \<lfloor>m\<rfloor> \<le> m" "m < of_int \<lfloor>m\<rfloor> + 1" by linarith+
  have "\<bar>of_int n - m\<bar> \<noteq> 1 / 2"
  proof
    assume t: "\<bar>of_int n - m\<bar> = 1 / 2"
    have "n = \<lfloor>m\<rfloor> \<or> n = \<lfloor>m\<rfloor> + 1"
      unfolding n_def round_even_def Let_def by simp
    then show False
    proof
      assume "n = \<lfloor>m\<rfloor>"
      then have "m - of_int \<lfloor>m\<rfloor> = 1 / 2" using t fl by simp
      with False show False by simp
    next
      assume n1: "n = \<lfloor>m\<rfloor> + 1"
      then have "m - of_int \<lfloor>m\<rfloor> = 1 / 2" using t fl by simp
      with False show False by simp
    qed
  qed
  with e have "\<bar>of_int n - m\<bar> < 1 / 2" by linarith
  then have "\<bar>- m - of_int (- n)\<bar> < 1 / 2" by simp
  then have "round_even (- m) = - n" by (rule round_even_near)
  then show ?thesis by (simp add: n_def)
qed

lemma f64_round_minus: "f64_round (- x) = - f64_round x"
  by (simp add: f64_round_def f64_ulp_exponent_def round_even_minus)

lemma f64_minus: "f64 (- x) = map_option uminus (f64 x)"
  by (simp add: f64_def f64_round_minus)

lemma floor_log2_bounds:
  assumes "x \<noteq> 0"
  shows "2 powi \<lfloor>log 2 \<bar>x\<bar>\<rfloor> \<le> \<bar>x\<bar>" and "\<bar>x\<bar> < 2 powi (\<lfloor>log 2 \<bar>x\<bar>\<rfloor> + 1)"
proof -
  have pos: "0 < \<bar>x\<bar>" using assms by simp
  define L where "L = \<lfloor>log 2 \<bar>x\<bar>\<rfloor>"
  have a: "(2::real) powr (of_int L) = 2 powi L" by (simp add: powr_real_of_int')
  have b: "(2::real) powr (of_int L + 1) = 2 powi (L + 1)"
    using powr_real_of_int' [of "2::real" "L + 1"] by simp
  have c: "2 powr (of_int L) \<le> \<bar>x\<bar> \<and> \<bar>x\<bar> < 2 powr (of_int L + 1)"
    using floor_log_eq_powr_iff [OF pos, of 2 L] by (simp add: L_def)
  have lo: "2 powi L \<le> \<bar>x\<bar>" using c by (simp only: a)
  have hi: "\<bar>x\<bar> < 2 powi (L + 1)" using c by (simp only: b)
  from lo show "2 powi \<lfloor>log 2 \<bar>x\<bar>\<rfloor> \<le> \<bar>x\<bar>" by (simp only: L_def)
  from hi show "\<bar>x\<bar> < 2 powi (\<lfloor>log 2 \<bar>x\<bar>\<rfloor> + 1)" by (simp only: L_def)
qed

lemma f64_round_error:
  assumes "x = 0 \<or> 2 powi (- 1022) \<le> \<bar>x\<bar>"
  shows "\<bar>f64_round x - x\<bar> \<le> \<bar>x\<bar> / 2 ^ 53"
proof (cases "x = 0")
  case True
  then show ?thesis by (simp add: f64_round_def)
next
  case False
  with assms have big: "2 powi (- 1022) \<le> \<bar>x\<bar>" by simp
  define L where "L = \<lfloor>log 2 \<bar>x\<bar>\<rfloor>"
  have lo: "2 powi L \<le> \<bar>x\<bar>" and hi: "\<bar>x\<bar> < 2 powi (L + 1)"
    unfolding L_def by (rule floor_log2_bounds [OF False])+
  have "- 1022 \<le> L"
  proof (rule ccontr)
    assume "\<not> - 1022 \<le> L"
    then have "L + 1 \<le> - 1022" by simp
    then have "(2::real) powi (L + 1) \<le> 2 powi (- 1022)"
      by (intro power_int_increasing) simp_all
    with hi big show False by linarith
  qed
  then have e: "f64_ulp_exponent x = L - 52"
    unfolding f64_ulp_exponent_def L_def [symmetric] by linarith
  define p :: real where "p = 2 powi (L - 52)"
  have p: "0 < p" by (simp add: p_def)
  have pL: "2 powi L = 2 ^ 52 * p"
    unfolding p_def by (simp add: power_int_diff)
  define r where "r = round_even (x / p)"
  have rnd: "f64_round x = of_int r * p"
    using False by (simp add: f64_round_def e p_def r_def)
  have "\<bar>of_int r - x / p\<bar> \<le> 1 / 2" unfolding r_def by (rule round_even_error)
  then have "\<bar>of_int r - x / p\<bar> * p \<le> 1 / 2 * p"
    using p by (intro mult_right_mono) simp_all
  moreover have "\<bar>of_int r - x / p\<bar> * p = \<bar>of_int r * p - x\<bar>"
  proof -
    have "\<bar>of_int r - x / p\<bar> * p = \<bar>(of_int r - x / p) * p\<bar>"
      using p by (simp add: abs_mult)
    also have "(of_int r - x / p) * p = of_int r * p - x"
      using p by (simp add: left_diff_distrib)
    finally show ?thesis .
  qed
  ultimately have "\<bar>f64_round x - x\<bar> \<le> p / 2" unfolding rnd by simp
  also have "p / 2 = 2 powi L / 2 ^ 53" unfolding pL by simp
  also have "\<dots> \<le> \<bar>x\<bar> / 2 ^ 53" using lo by (intro divide_right_mono) simp_all
  finally show ?thesis .
qed

lemma f64_rounds:
  assumes "f64_range a b x" and "- 1022 \<le> a" and "b \<le> 1022"
  shows "\<exists>r. f64 x = Some r \<and> \<bar>r - x\<bar> \<le> \<bar>x\<bar> / 2 ^ 53 \<and> f64_range (a - 1) (b + 1) r \<and>
             (0 \<le> x \<longrightarrow> 0 \<le> r)"
proof (cases "x = 0")
  case True
  then show ?thesis by (simp add: f64_zero f64_range_def)
next
  case False
  with assms(1) have lo: "2 powi a \<le> \<bar>x\<bar>" and hi: "\<bar>x\<bar> \<le> 2 powi b"
    by (simp_all add: f64_range_def)
  have "(2::real) powi (- 1022) \<le> 2 powi a"
    using assms(2) by (intro power_int_increasing) simp_all
  with lo have "x = 0 \<or> 2 powi (- 1022) \<le> \<bar>x\<bar>" by simp
  then have err: "\<bar>f64_round x - x\<bar> \<le> \<bar>x\<bar> / 2 ^ 53" by (rule f64_round_error)
  define r where "r = f64_round x"
  have small: "\<bar>x\<bar> / 2 ^ 53 \<le> \<bar>x\<bar> / 2"
    by (intro divide_left_mono) simp_all
  have up: "\<bar>r\<bar> \<le> 2 * \<bar>x\<bar>" using err small unfolding r_def by linarith
  have down: "\<bar>x\<bar> / 2 \<le> \<bar>r\<bar>" using err small unfolding r_def by linarith
  have b1: "(2::real) powi (b + 1) = 2 * 2 powi b" by (simp add: power_int_add)
  have a1: "(2::real) powi (a - 1) = 2 powi a / 2" by (simp add: power_int_diff)
  have w: "f64_range (a - 1) (b + 1) r"
    unfolding f64_range_def a1 b1 using up down lo hi by linarith
  have "(2::real) powi (b + 1) \<le> 2 powi 1023"
    using assms(3) by (intro power_int_increasing) simp_all
  then have "\<bar>r\<bar> \<le> 2 powi 1023" using up hi b1 by linarith
  also have "(2::real) powi 1023 < 2 powi 1024"
    by (intro power_int_strict_increasing) simp_all
  also have "(2::real) powi 1024 = 2 ^ 1024" by (simp only: power_int_numeral)
  finally have fin: "\<bar>r\<bar> < 2 ^ 1024" .
  have sgn: "0 \<le> x \<longrightarrow> 0 \<le> r" using err small unfolding r_def by linarith
  show ?thesis
    using fin err w sgn unfolding r_def f64_def by simp
qed

section \<open>The error of a rounded operation\<close>

lemma u_small: "0 < f64_u" "f64_u < 1"
  by (simp_all add: f64_u_def)

lemma err_bounds:
  assumes "\<bar>r - x\<bar> \<le> \<bar>x\<bar> / 2 ^ 53"
  shows "(1 - f64_u) * \<bar>x\<bar> \<le> \<bar>r\<bar>" and "\<bar>r\<bar> \<le> (1 + f64_u) * \<bar>x\<bar>"
proof -
  have e: "\<bar>x\<bar> / 2 ^ 53 = f64_u * \<bar>x\<bar>" by (simp add: f64_u_def)
  have "(1 - f64_u) * \<bar>x\<bar> = \<bar>x\<bar> - f64_u * \<bar>x\<bar>" by (simp add: left_diff_distrib)
  then show "(1 - f64_u) * \<bar>x\<bar> \<le> \<bar>r\<bar>" using assms unfolding e by linarith
  have "(1 + f64_u) * \<bar>x\<bar> = \<bar>x\<bar> + f64_u * \<bar>x\<bar>" by (simp add: distrib_right)
  then show "\<bar>r\<bar> \<le> (1 + f64_u) * \<bar>x\<bar>" using assms unfolding e by linarith
qed

lemma f64_rounds_rel:
  assumes "f64_range a b x" and "- 1022 \<le> a" and "b \<le> 1022"
  shows "\<exists>r. f64 x = Some r \<and> (1 - f64_u) * \<bar>x\<bar> \<le> \<bar>r\<bar> \<and> \<bar>r\<bar> \<le> (1 + f64_u) * \<bar>x\<bar> \<and>
             f64_range (a - 1) (b + 1) r \<and> (0 \<le> x \<longrightarrow> 0 \<le> r)"
proof -
  from f64_rounds [OF assms] obtain r where r: "f64 x = Some r" "\<bar>r - x\<bar> \<le> \<bar>x\<bar> / 2 ^ 53"
    "f64_range (a - 1) (b + 1) r" "0 \<le> x \<longrightarrow> 0 \<le> r" by blast
  from err_bounds [OF r(2)] r show ?thesis by blast
qed

lemma range_square:
  assumes "f64_range (- 500) 500 v"
  shows "f64_range (- 1000) 1000 (v * v)"
proof (cases "v = 0")
  case True
  then show ?thesis by (simp add: f64_range_def)
next
  case False
  with assms have lo: "2 powi (- 500) \<le> \<bar>v\<bar>" and hi: "\<bar>v\<bar> \<le> 2 powi 500"
    by (simp_all add: f64_range_def)
  have "(2::real) powi (- 500) * 2 powi (- 500) \<le> \<bar>v\<bar> * \<bar>v\<bar>"
    using lo by (intro mult_mono) simp_all
  moreover have "(2::real) powi (- 500) * 2 powi (- 500) = 2 powi (- 1000)"
    by (simp add: power_int_add [symmetric])
  moreover have "\<bar>v\<bar> * \<bar>v\<bar> \<le> 2 powi 500 * 2 powi 500"
    using hi by (intro mult_mono) simp_all
  moreover have "(2::real) powi 500 * 2 powi 500 = 2 powi 1000"
    by (simp add: power_int_add [symmetric])
  ultimately show ?thesis by (simp add: f64_range_def abs_mult)
qed

lemma step_square:
  assumes "f64_range (- 500) 500 v"
  shows "\<exists>s. f64_mul v v = Some s \<and> 0 \<le> s \<and> (1 - f64_u) * (v * v) \<le> s \<and>
             f64_range (- 1001) 1001 s"
proof -
  have nn: "0 \<le> v * v" by simp
  from f64_rounds_rel [OF range_square [OF assms]]
  obtain s where s: "f64 (v * v) = Some s" "(1 - f64_u) * \<bar>v * v\<bar> \<le> \<bar>s\<bar>"
    "f64_range (- 1000 - 1) (1000 + 1) s" "0 \<le> v * v \<longrightarrow> 0 \<le> s" by auto
  from s(4) nn have s0: "0 \<le> s" by simp
  have "(1 - f64_u) * (v * v) \<le> s" using s(2) s0 nn by (simp add: abs_of_nonneg)
  with s s0 show ?thesis by (simp add: f64_mul_def)
qed

lemma step_sum:
  assumes "0 \<le> s1" "f64_range (- 1001) 1001 s1" "0 \<le> s2" "f64_range (- 1001) 1001 s2"
  shows "\<exists>t. f64_add s1 s2 = Some t \<and> 0 \<le> t \<and> (1 - f64_u) * (s1 + s2) \<le> t \<and>
             f64_range (- 1002) 1003 t"
proof -
  have p: "(2::real) powi 1002 = 2 * 2 powi 1001"
    using power_int_add [of "2::real" 1 1001] by simp
  have pos: "0 < (2::real) powi (- 1001)" by simp
  have "f64_range (- 1001) 1002 (s1 + s2)"
    using assms pos unfolding f64_range_def p by linarith
  from f64_rounds_rel [OF this]
  obtain t where t: "f64 (s1 + s2) = Some t" "(1 - f64_u) * \<bar>s1 + s2\<bar> \<le> \<bar>t\<bar>"
    "f64_range (- 1001 - 1) (1002 + 1) t" "0 \<le> s1 + s2 \<longrightarrow> 0 \<le> t" by auto
  have nn: "0 \<le> s1 + s2" using assms by simp
  with t(4) have t0: "0 \<le> t" by simp
  have "(1 - f64_u) * (s1 + s2) \<le> t" using t(2) t0 nn by simp
  with t t0 show ?thesis by (simp add: f64_add_def)
qed

lemma range_sqrt:
  assumes "0 \<le> s" "f64_range (- 1002) 1003 s"
  shows "f64_range (- 501) 502 (sqrt s)"
proof (cases "s = 0")
  case True
  then show ?thesis by (simp add: f64_range_def)
next
  case False
  with assms have lo: "2 powi (- 1002) \<le> s" and hi: "s \<le> 2 powi 1003"
    by (simp_all add: f64_range_def abs_of_nonneg)
  have a: "((2::real) powi (- 501))\<^sup>2 = 2 powi (- 1002)"
    using power_int_add [of "2::real" "- 501" "- 501"] by (simp add: power2_eq_square)
  have b: "((2::real) powi 502)\<^sup>2 = 2 powi 1004"
    using power_int_add [of "2::real" 502 502] by (simp add: power2_eq_square)
  have "((2::real) powi (- 501))\<^sup>2 \<le> s" unfolding a by (rule lo)
  then have l: "2 powi (- 501) \<le> sqrt s" by (rule real_le_rsqrt)
  have "(2::real) powi 1003 \<le> 2 powi 1004" by (intro power_int_increasing) simp_all
  with hi have "s \<le> ((2::real) powi 502)\<^sup>2" unfolding b by linarith
  then have h: "sqrt s \<le> 2 powi 502" by (intro real_le_lsqrt) simp_all
  have "0 \<le> sqrt s" using assms(1) by simp
  with l h show ?thesis by (simp add: f64_range_def abs_of_nonneg)
qed

lemma step_sqrt:
  assumes "0 \<le> s" "f64_range (- 1002) 1003 s"
  shows "\<exists>d. f64_sqrt s = Some d \<and> 0 \<le> d \<and> (1 - f64_u) * sqrt s \<le> d \<and>
             f64_range (- 502) 503 d"
proof -
  from f64_rounds_rel [OF range_sqrt [OF assms]]
  obtain d where d: "f64 (sqrt s) = Some d" "(1 - f64_u) * \<bar>sqrt s\<bar> \<le> \<bar>d\<bar>"
    "f64_range (- 501 - 1) (502 + 1) d" "0 \<le> sqrt s \<longrightarrow> 0 \<le> d" by auto
  have nn: "0 \<le> sqrt s" using assms(1) by simp
  with d(4) have d0: "0 \<le> d" by simp
  have "(1 - f64_u) * sqrt s \<le> d" using d(2) d0 nn by simp
  with d d0 assms(1) show ?thesis by (simp add: f64_sqrt_def not_less)
qed

lemma range_times:
  assumes "f64_range a b x" and "1 \<le> c" and "c \<le> 64"
  shows "f64_range a (b + 6) (x * c)"
proof (cases "x = 0")
  case True
  then show ?thesis by (simp add: f64_range_def)
next
  case False
  with assms(1) have lo: "2 powi a \<le> \<bar>x\<bar>" and hi: "\<bar>x\<bar> \<le> 2 powi b"
    by (simp_all add: f64_range_def)
  have c: "\<bar>c\<bar> = c" using assms(2) by simp
  have "2 powi a * 1 \<le> \<bar>x\<bar> * c" using lo assms(2) by (intro mult_mono) simp_all
  moreover have "\<bar>x\<bar> * c \<le> 2 powi b * 64" using hi assms by (intro mult_mono) simp_all
  moreover have "(2::real) powi (b + 6) = 2 powi b * 64" by (simp add: power_int_add)
  ultimately show ?thesis by (simp add: f64_range_def abs_mult c)
qed

lemma range_over:
  assumes "f64_range a b x" and "1 \<le> c" and "c \<le> 64"
  shows "f64_range (a - 6) b (x / c)"
proof (cases "x = 0")
  case True
  then show ?thesis by (simp add: f64_range_def)
next
  case False
  with assms(1) have lo: "2 powi a \<le> \<bar>x\<bar>" and hi: "\<bar>x\<bar> \<le> 2 powi b"
    by (simp_all add: f64_range_def)
  have c: "\<bar>c\<bar> = c" "0 < c" using assms(2) by simp_all
  have p: "(2::real) powi (a - 6) = 2 powi a / 64" by (simp add: power_int_diff)
  have "2 powi a / 64 \<le> \<bar>x\<bar> / c" using lo assms c by (intro frac_le) simp_all
  then have l: "2 powi (a - 6) \<le> \<bar>x / c\<bar>" unfolding p abs_divide c .
  have "\<bar>x\<bar> / c \<le> 2 powi b / 1" using hi assms c by (intro frac_le) simp_all
  then have h: "\<bar>x / c\<bar> \<le> 2 powi b" unfolding abs_divide c by simp
  from l h show ?thesis unfolding f64_range_def by blast
qed

lemma f64_div_minus:
  assumes "f64_div p c = Some m"
  shows "f64_div (- p) c = Some (- m)"
proof -
  have c: "c \<noteq> 0" using assms by (auto simp add: f64_div_def split: if_splits)
  then have "f64 (p / c) = Some m" using assms by (simp add: f64_div_def)
  then have "f64 (- (p / c)) = Some (- m)" by (simp add: f64_minus)
  then show ?thesis using c by (simp add: f64_div_def)
qed

lemma step_near:
  assumes "f64_range (- 500) 500 v"
  shows "\<exists>m. f64_div v maxDistance = Some m \<and> f64_div (- v) maxDistance = Some (- m) \<and>
             \<bar>m\<bar> \<le> (1 + f64_u) * (\<bar>v\<bar> / 40)"
proof -
  have "f64_range (- 500 - 6) 500 (v / 40)"
    by (rule range_over [OF assms]) simp_all
  from f64_rounds_rel [OF this]
  obtain m where m: "f64 (v / 40) = Some m" "\<bar>m\<bar> \<le> (1 + f64_u) * \<bar>v / 40\<bar>" by auto
  have d: "f64_div v maxDistance = Some m" using m(1) by (simp add: f64_div_def maxDistance_def)
  from d f64_div_minus [OF d] m(2) show ?thesis by simp
qed

lemma step_far:
  assumes v: "f64_range (- 500) 500 v" and d: "40 < d" "f64_range (- 502) 503 d"
  shows "\<exists>q p m. f64_div v d = Some q \<and> f64_mul q maxDistance = Some p \<and>
           f64_div p maxDistance = Some m \<and> f64_div (- p) maxDistance = Some (- m) \<and>
           \<bar>m\<bar> \<le> (1 + f64_u) ^ 3 * (\<bar>v\<bar> / d)"
proof -
  define b where "b = 1 + f64_u"
  have b: "0 \<le> b" using u_small by (simp add: b_def)
  have dpos: "0 < d" "\<bar>d\<bar> = d" "d \<noteq> 0" using d(1) by simp_all
  have dhi: "d \<le> 2 powi 503" using d(2) dpos by (simp add: f64_range_def)
  have "f64_range (- 1003) 500 (v / d)"
  proof (cases "v = 0")
    case True
    then show ?thesis by (simp add: f64_range_def)
  next
    case False
    with v have lo: "2 powi (- 500) \<le> \<bar>v\<bar>" and hi: "\<bar>v\<bar> \<le> 2 powi 500"
      by (simp_all add: f64_range_def)
    have p: "(2::real) powi (- 1003) = 2 powi (- 500) / 2 powi 503"
      using power_int_diff [of "2::real" "- 500" 503] by simp
    have "2 powi (- 500) / 2 powi 503 \<le> \<bar>v\<bar> / d"
      using lo dhi dpos by (intro frac_le) simp_all
    then have l: "2 powi (- 1003) \<le> \<bar>v / d\<bar>" unfolding p abs_divide dpos(2) .
    have "\<bar>v\<bar> / d \<le> 2 powi 500 / 1" using hi d(1) by (intro frac_le) simp_all
    then have h: "\<bar>v / d\<bar> \<le> 2 powi 500" unfolding abs_divide dpos(2) by simp
    from l h show ?thesis unfolding f64_range_def by blast
  qed
  from f64_rounds_rel [OF this]
  obtain q where q: "f64 (v / d) = Some q" "\<bar>q\<bar> \<le> b * \<bar>v / d\<bar>"
    "f64_range (- 1003 - 1) (500 + 1) q" unfolding b_def by auto
  have "f64_range (- 1003 - 1) (500 + 1 + 6) (q * 40)"
    by (rule range_times [OF q(3)]) simp_all
  from f64_rounds_rel [OF this]
  obtain p where p: "f64 (q * 40) = Some p" "\<bar>p\<bar> \<le> b * \<bar>q * 40\<bar>"
    "f64_range (- 1003 - 1 - 1) (500 + 1 + 6 + 1) p" unfolding b_def by auto
  have "f64_range (- 1003 - 1 - 1 - 6) (500 + 1 + 6 + 1) (p / 40)"
    by (rule range_over [OF p(3)]) simp_all
  from f64_rounds_rel [OF this]
  obtain m where m: "f64 (p / 40) = Some m" "\<bar>m\<bar> \<le> b * \<bar>p / 40\<bar>"
    unfolding b_def by auto
  have "\<bar>p / 40\<bar> = \<bar>p\<bar> / 40" by simp
  also have "\<dots> \<le> (b * \<bar>q * 40\<bar>) / 40" using p(2) by (intro divide_right_mono) simp_all
  also have "\<dots> = b * \<bar>q\<bar>" by (simp add: abs_mult)
  also have "\<dots> \<le> b * (b * \<bar>v / d\<bar>)" using q(2) b by (intro mult_left_mono)
  finally have "\<bar>p / 40\<bar> \<le> b * (b * \<bar>v / d\<bar>)" .
  then have "b * \<bar>p / 40\<bar> \<le> b * (b * (b * \<bar>v / d\<bar>))" using b by (intro mult_left_mono)
  with m(2) have "\<bar>m\<bar> \<le> b * (b * (b * \<bar>v / d\<bar>))" by linarith
  also have "\<dots> = b ^ 3 * (\<bar>v\<bar> / d)"
    by (simp add: power3_eq_cube abs_divide dpos(2) mult.assoc)
  finally have bound: "\<bar>m\<bar> \<le> (1 + f64_u) ^ 3 * (\<bar>v\<bar> / d)" unfolding b_def .
  have d1: "f64_div v d = Some q" using q(1) dpos by (simp add: f64_div_def)
  have d2: "f64_mul q maxDistance = Some p" using p(1) by (simp add: f64_mul_def maxDistance_def)
  have d3: "f64_div p maxDistance = Some m" using m(1) by (simp add: f64_div_def maxDistance_def)
  from d1 d2 d3 f64_div_minus [OF d3] bound show ?thesis by blast
qed

section \<open>The magnitude of the vector emitted in binary64\<close>

lemma square_le:
  fixes m c :: real
  assumes "\<bar>m\<bar> \<le> c"
  shows "m * m \<le> c * c"
proof -
  have "\<bar>m\<bar> * \<bar>m\<bar> \<le> c * c" using assms by (intro mult_mono) simp_all
  then show ?thesis by simp
qed

lemma distance_lower:
  fixes a R xx yy ss d :: real
  assumes a: "0 \<le> a" and R: "R = dx * dx + dy * dy"
    and xx: "a * (dx * dx) \<le> xx" and yy: "a * (dy * dy) \<le> yy"
    and ss: "a * (xx + yy) \<le> ss" and d: "a * sqrt ss \<le> d"
  shows "a ^ 4 * R \<le> d * d"
proof -
  have R0: "0 \<le> R" unfolding R by simp
  have "a * R \<le> xx + yy" using xx yy unfolding R by (simp add: distrib_left)
  then have "a * (a * R) \<le> a * (xx + yy)" using a by (intro mult_left_mono)
  with ss have "a * a * R \<le> ss" by (simp add: mult.assoc)
  then have "sqrt (a * a * R) \<le> sqrt ss" by simp
  moreover have "sqrt (a * a * R) = a * sqrt R"
    using a by (simp add: real_sqrt_mult)
  ultimately have "a * sqrt R \<le> sqrt ss" by simp
  then have "a * (a * sqrt R) \<le> a * sqrt ss" using a by (intro mult_left_mono)
  with d have low: "a * (a * sqrt R) \<le> d" by linarith
  have nn: "0 \<le> a * (a * sqrt R)" using a R0 by simp
  have "(a * (a * sqrt R)) * (a * (a * sqrt R)) \<le> d * d"
    using low nn by (intro mult_mono) linarith+
  moreover have "(a * (a * sqrt R)) * (a * (a * sqrt R)) = a ^ 4 * (sqrt R * sqrt R)"
    by (simp add: power4_eq_xxxx)
  moreover have "sqrt R * sqrt R = R" using R0 by simp
  ultimately show ?thesis by simp
qed

lemma far_bound:
  fixes a b R d mx my :: real
  assumes a: "0 < a" and b: "0 \<le> b" and d: "0 < d" and R: "R = dx * dx + dy * dy"
    and K: "a ^ 4 * R \<le> d * d"
    and mx: "\<bar>mx\<bar> \<le> b ^ 3 * (\<bar>dx\<bar> / d)" and my: "\<bar>my\<bar> \<le> b ^ 3 * (\<bar>dy\<bar> / d)"
  shows "mx * mx + my * my \<le> b ^ 6 / a ^ 4"
proof -
  have dd: "0 < d * d" using d by simp
  have a4: "0 < a ^ 4" using a by simp
  have "mx * mx \<le> (b ^ 3 * (\<bar>dx\<bar> / d)) * (b ^ 3 * (\<bar>dx\<bar> / d))" by (rule square_le [OF mx])
  also have "\<dots> = b ^ 6 * ((dx * dx) / (d * d))"
    by (simp add: power_add [symmetric] mult.assoc mult.left_commute)
  finally have x: "mx * mx \<le> b ^ 6 * ((dx * dx) / (d * d))" .
  have "my * my \<le> (b ^ 3 * (\<bar>dy\<bar> / d)) * (b ^ 3 * (\<bar>dy\<bar> / d))" by (rule square_le [OF my])
  also have "\<dots> = b ^ 6 * ((dy * dy) / (d * d))"
    by (simp add: power_add [symmetric] mult.assoc mult.left_commute)
  finally have y: "my * my \<le> b ^ 6 * ((dy * dy) / (d * d))" .
  have "mx * mx + my * my \<le> b ^ 6 * (R / (d * d))"
    using x y unfolding R by (simp add: distrib_left add_divide_distrib)
  also have "R / (d * d) \<le> 1 / a ^ 4"
  proof -
    have "R * a ^ 4 \<le> 1 * (d * d)" using K by (simp add: mult.commute)
    then show ?thesis using dd a4 by (simp add: frac_le_eq field_simps)
  qed
  finally show ?thesis using b by (simp add: mult_left_mono)
qed

lemma near_bound:
  fixes a b R d mx my :: real
  assumes a: "0 < a" and b: "1 \<le> b" and d: "0 \<le> d" "d \<le> 40" and R: "R = dx * dx + dy * dy"
    and K: "a ^ 4 * R \<le> d * d"
    and mx: "\<bar>mx\<bar> \<le> b * (\<bar>dx\<bar> / 40)" and my: "\<bar>my\<bar> \<le> b * (\<bar>dy\<bar> / 40)"
  shows "mx * mx + my * my \<le> b ^ 6 / a ^ 4"
proof -
  have a4: "0 < a ^ 4" using a by simp
  have b0: "0 \<le> b" using b by simp
  have "d * d \<le> 40 * 40" using d by (intro mult_mono) simp_all
  with K have K': "a ^ 4 * R \<le> 1600" by simp
  have "mx * mx \<le> (b * (\<bar>dx\<bar> / 40)) * (b * (\<bar>dx\<bar> / 40))" by (rule square_le [OF mx])
  also have "\<dots> = b ^ 2 * ((dx * dx) / 1600)"
    by (simp add: power2_eq_square)
  finally have x: "mx * mx \<le> b ^ 2 * ((dx * dx) / 1600)" .
  have "my * my \<le> (b * (\<bar>dy\<bar> / 40)) * (b * (\<bar>dy\<bar> / 40))" by (rule square_le [OF my])
  also have "\<dots> = b ^ 2 * ((dy * dy) / 1600)"
    by (simp add: power2_eq_square)
  finally have y: "my * my \<le> b ^ 2 * ((dy * dy) / 1600)" .
  have s: "mx * mx + my * my \<le> b ^ 2 * (R / 1600)"
    using x y unfolding R by (simp add: distrib_left add_divide_distrib)
  have "R / 1600 \<le> 1 / a ^ 4"
  proof -
    have "R * a ^ 4 \<le> 1 * 1600" using K' by (simp add: mult.commute)
    then show ?thesis using a4 by (simp add: frac_le_eq field_simps)
  qed
  then have A: "b ^ 2 * (R / 1600) \<le> b ^ 2 * (1 / a ^ 4)" by (intro mult_left_mono) simp_all
  have "b ^ 2 \<le> b ^ 6" using b by (intro power_increasing) simp_all
  then have B: "b ^ 2 * (1 / a ^ 4) \<le> b ^ 6 * (1 / a ^ 4)" using a4 by (intro mult_right_mono) simp_all
  have "mx * mx + my * my \<le> b ^ 6 * (1 / a ^ 4)" using s A B by linarith
  then show ?thesis by simp
qed

lemma scale_bound:
  assumes dx: "f64_range (- 500) 500 dx" and dy: "f64_range (- 500) 500 dy"
  shows "\<exists>knob m. scaleToRadius_f64 dx dy = Some (knob, m) \<and>
           px m * px m + py m * py m \<le> (1 + f64_u) ^ 6 / (1 - f64_u) ^ 4"
proof -
  define a where "a = 1 - f64_u"
  define b where "b = 1 + f64_u"
  define R where "R = dx * dx + dy * dy"
  have a: "0 < a" "0 \<le> a" and b: "1 \<le> b" "0 \<le> b"
    using u_small by (simp_all add: a_def b_def)
  from step_square [OF dx] obtain xx where xx: "f64_mul dx dx = Some xx" "0 \<le> xx"
    "a * (dx * dx) \<le> xx" "f64_range (- 1001) 1001 xx" unfolding a_def by blast
  from step_square [OF dy] obtain yy where yy: "f64_mul dy dy = Some yy" "0 \<le> yy"
    "a * (dy * dy) \<le> yy" "f64_range (- 1001) 1001 yy" unfolding a_def by blast
  from step_sum [OF xx(2) xx(4) yy(2) yy(4)] obtain ss where ss: "f64_add xx yy = Some ss"
    "0 \<le> ss" "a * (xx + yy) \<le> ss" "f64_range (- 1002) 1003 ss" unfolding a_def by blast
  from step_sqrt [OF ss(2) ss(4)] obtain d where d: "f64_sqrt ss = Some d" "0 \<le> d"
    "a * sqrt ss \<le> d" "f64_range (- 502) 503 d" unfolding a_def by blast
  have K: "a ^ 4 * R \<le> d * d"
    by (rule distance_lower [OF a(2) R_def xx(3) yy(3) ss(3) d(3)])
  show ?thesis
  proof (cases "d > maxDistance")
    case True
    then have far: "40 < d" by (simp add: maxDistance_def)
    from step_far [OF dx far d(4)] obtain qx kx mx where
      x: "f64_div dx d = Some qx" "f64_mul qx maxDistance = Some kx"
         "f64_div kx maxDistance = Some mx" "\<bar>mx\<bar> \<le> b ^ 3 * (\<bar>dx\<bar> / d)"
      unfolding b_def by blast
    from step_far [OF dy far d(4)] obtain qy ky my where
      y: "f64_div dy d = Some qy" "f64_mul qy maxDistance = Some ky"
         "f64_div (- ky) maxDistance = Some (- my)" "\<bar>my\<bar> \<le> b ^ 3 * (\<bar>dy\<bar> / d)"
      unfolding b_def by blast
    have r: "scaleToRadius_f64 dx dy = Some (\<lparr>px = kx, py = ky\<rparr>, \<lparr>px = mx, py = - my\<rparr>)"
      unfolding scaleToRadius_f64_def using True
      by (simp add: xx(1) yy(1) ss(1) d(1) x(1-3) y(1-3))
    have "0 < d" using far by simp
    from far_bound [OF a(1) b(2) this R_def K x(4) y(4)]
    have "mx * mx + (- my) * (- my) \<le> b ^ 6 / a ^ 4" by simp
    with r show ?thesis unfolding a_def b_def by force
  next
    case False
    then have near: "d \<le> 40" by (simp add: maxDistance_def)
    from step_near [OF dx] obtain mx where
      x: "f64_div dx maxDistance = Some mx" "\<bar>mx\<bar> \<le> b * (\<bar>dx\<bar> / 40)"
      unfolding b_def by blast
    from step_near [OF dy] obtain my where
      y: "f64_div (- dy) maxDistance = Some (- my)" "\<bar>my\<bar> \<le> b * (\<bar>dy\<bar> / 40)"
      unfolding b_def by blast
    have r: "scaleToRadius_f64 dx dy = Some (\<lparr>px = dx, py = dy\<rparr>, \<lparr>px = mx, py = - my\<rparr>)"
      unfolding scaleToRadius_f64_def using False
      by (simp add: xx(1) yy(1) ss(1) d(1) x(1) y(1))
    from near_bound [OF a(1) b(1) d(2) near R_def K x(2) y(2)]
    have "mx * mx + (- my) * (- my) \<le> b ^ 6 / a ^ 4" by simp
    with r show ?thesis unfolding a_def b_def by force
  qed
qed

lemma bound_numeric: "(1 + f64_u) ^ 6 / (1 - f64_u) ^ 4 \<le> (1 + 1 / 2 ^ 50) * (1 + 1 / 2 ^ 50)"
proof -
  have p: "1 + f64_u = 9007199254740993 / 9007199254740992"
    and m: "1 - f64_u = 9007199254740991 / 9007199254740992"
    and c: "1 + 1 / 2 ^ 50 = (1125899906842625 / 1125899906842624 :: real)"
    by (simp_all add: f64_u_def)
  have pos: "0 < (1 - f64_u) ^ 4" using u_small by simp
  have "(1 + f64_u) ^ 6 \<le> (1 + 1 / 2 ^ 50) * (1 + 1 / 2 ^ 50) * (1 - f64_u) ^ 4"
    unfolding p m c by (simp add: power_divide)
  then show ?thesis using pos by (simp add: pos_divide_le_eq)
qed

section \<open>The mapper in binary64 at two displacements\<close>

lemma d_bounds: "(8030982259149145 - 1 / 2) / 2 ^ 45 < sqrt 52100 \<and>
           sqrt 52100 < (8030982259149145 + 1 / 2) / 2 ^ 45"
  by (rule sqrt_in) simp_all

lemma d_value: "f64 (sqrt 52100) = Some (8030982259149145 / 2 ^ 45)"
proof -
  have p: "(2::real) powi (- 45) = 1 / 2 ^ 45" by (simp add: power_int_minus_divide)
  have "f64 (sqrt 52100) = Some (of_int 8030982259149145 * 2 powi (- 45))"
  proof (rule f64_between)
    show "(of_int 8030982259149145 - 1 / 2) * 2 powi (- 45) < sqrt 52100"
      unfolding p using d_bounds by simp
    show "sqrt 52100 < (of_int 8030982259149145 + 1 / 2) * 2 powi (- 45)"
      unfolding p using d_bounds by simp
  qed simp_all
  then show ?thesis unfolding p by simp
qed

lemma qx_value: "f64 (200 / (8030982259149145 / 2 ^ 45)) = Some (7892251279624497 / 2 ^ 53)"
proof -
  have p: "(2::real) powi (- 53) = 1 / 2 ^ 53" by (simp add: power_int_minus_divide)
  have "f64 (200 / (8030982259149145 / 2 ^ 45)) = Some (of_int 7892251279624497 * 2 powi (- 53))"
    by (rule f64_between) (simp_all add: p)
  then show ?thesis unfolding p by simp
qed

lemma qy_value: "f64 (110 / (8030982259149145 / 2 ^ 45)) = Some (8681476407586946 / 2 ^ 54)"
proof -
  have p: "(2::real) powi (- 54) = 1 / 2 ^ 54" by (simp add: power_int_minus_divide)
  have "f64 (110 / (8030982259149145 / 2 ^ 45)) = Some (of_int 8681476407586946 * 2 powi (- 54))"
    by (rule f64_between) (simp_all add: p)
  then show ?thesis unfolding p by simp
qed

lemma px_value: "f64 (7892251279624497 / 2 ^ 53 * 40) = Some (4932657049765311 / 2 ^ 47)"
proof -
  have p: "(2::real) powi (- 47) = 1 / 2 ^ 47" by (simp add: power_int_minus_divide)
  have "f64 (7892251279624497 / 2 ^ 53 * 40) = Some (of_int 4932657049765311 * 2 powi (- 47))"
    by (rule f64_between) (simp_all add: p)
  then show ?thesis unfolding p by simp
qed

lemma py_value: "f64 (8681476407586946 / 2 ^ 54 * 40) = Some (5425922754741841 / 2 ^ 48)"
proof -
  have p: "(2::real) powi (- 48) = 1 / 2 ^ 48" by (simp add: power_int_minus_divide)
  have "f64 (8681476407586946 / 2 ^ 54 * 40) = Some (of_int 5425922754741841 * 2 powi (- 48))"
    by (rule f64_between) (simp_all add: p)
  then show ?thesis unfolding p by simp
qed

lemma mx_value: "f64 (4932657049765311 / 2 ^ 47 / 40) = Some (7892251279624498 / 2 ^ 53)"
proof -
  have p: "(2::real) powi (- 53) = 1 / 2 ^ 53" by (simp add: power_int_minus_divide)
  have "f64 (4932657049765311 / 2 ^ 47 / 40) = Some (of_int 7892251279624498 * 2 powi (- 53))"
    by (rule f64_between) (simp_all add: p)
  then show ?thesis unfolding p by simp
qed

lemma my_value: "f64 (5425922754741841 / 2 ^ 48 / 40) = Some (8681476407586946 / 2 ^ 54)"
proof -
  have p: "(2::real) powi (- 54) = 1 / 2 ^ 54" by (simp add: power_int_minus_divide)
  have "f64 (5425922754741841 / 2 ^ 48 / 40) = Some (of_int 8681476407586946 * 2 powi (- 54))"
    by (rule f64_between) (simp_all add: p)
  then show ?thesis unfolding p by simp
qed

lemma over_one:
  "(7892251279624498 / 2 ^ 53) * (7892251279624498 / 2 ^ 53) +
   (8681476407586946 / 2 ^ 54) * (8681476407586946 / 2 ^ 54) > (1::real)"
  by simp

lemma updatePosition_f64_slices:
  assumes "joystickRef s = Some rect"
  shows "updatePosition_f64 clientX clientY s = do {
     (dx, dy) \<leftarrow> displacement_f64 rect clientX clientY;
     (knob, m) \<leftarrow> scaleToRadius_f64 dx dy;
     Some (s\<lparr>position := knob, moveDirection := m\<rparr>)
   }"
  unfolding updatePosition_f64_def displacement_f64_def scaleToRadius_f64_def
  by (simp add: assms split: Option.bind_split)

lemma updatePosition_f64_result:
  assumes "joystickRef s = Some rect"
    and "displacement_f64 rect clientX clientY = Some (dx, dy)"
    and "scaleToRadius_f64 dx dy = Some (knob, m)"
  shows "updatePosition_f64 clientX clientY s = Some (s\<lparr>position := knob, moveDirection := m\<rparr>)"
  unfolding updatePosition_f64_slices [OF assms(1)] by (simp add: assms(2,3))

lemma idle_displacement: "displacement_f64 control_rect 296 554 = Some (200, - 110)"
  by (simp add: displacement_f64_def control_rect_def f64_div_def f64_add_def f64_sub_def
      f64_numeral f64_neg_numeral)

lemma drag_displacement: "displacement_f64 control_rect 176 664 = Some (80, 0)"
  by (simp add: displacement_f64_def control_rect_def f64_div_def f64_add_def f64_sub_def
      f64_numeral f64_zero)

lemma scale_200_110:
  "scaleToRadius_f64 200 (- 110) =
     Some (\<lparr>px = 4932657049765311 / 2 ^ 47, py = - (5425922754741841 / 2 ^ 48)\<rparr>,
           \<lparr>px = 7892251279624498 / 2 ^ 53, py = 8681476407586946 / 2 ^ 54\<rparr>)"
proof -
  define D :: real where "D = 8030982259149145 / 2 ^ 45"
  define QX :: real where "QX = 7892251279624497 / 2 ^ 53"
  define QY :: real where "QY = 8681476407586946 / 2 ^ 54"
  define KX :: real where "KX = 4932657049765311 / 2 ^ 47"
  define KY :: real where "KY = 5425922754741841 / 2 ^ 48"
  define MX :: real where "MX = 7892251279624498 / 2 ^ 53"
  define MY :: real where "MY = 8681476407586946 / 2 ^ 54"
  have Dnz: "D \<noteq> 0" and far: "D > maxDistance" by (simp_all add: D_def maxDistance_def)
  have s1: "f64_mul 200 200 = Some 40000" by (simp add: f64_mul_def f64_numeral)
  have s2: "f64_mul (- 110) (- 110) = Some 12100" by (simp add: f64_mul_def f64_numeral)
  have s3: "f64_add 40000 12100 = Some 52100" by (simp add: f64_add_def f64_numeral)
  have "f64 (sqrt 52100) = Some D" unfolding D_def by (rule d_value)
  then have s4: "f64_sqrt 52100 = Some D" by (simp add: f64_sqrt_def)
  have "f64 (200 / D) = Some QX" unfolding D_def QX_def by (rule qx_value)
  then have s5: "f64_div 200 D = Some QX" using Dnz by (simp add: f64_div_def)
  have "f64 (110 / D) = Some QY" unfolding D_def QY_def by (rule qy_value)
  then have "f64 (- (110 / D)) = Some (- QY)" by (simp add: f64_minus)
  then have s6: "f64_div (- 110) D = Some (- QY)" using Dnz by (simp add: f64_div_def)
  have "f64 (QX * 40) = Some KX" unfolding QX_def KX_def by (rule px_value)
  then have s7: "f64_mul QX maxDistance = Some KX" by (simp add: f64_mul_def maxDistance_def)
  have "f64 (QY * 40) = Some KY" unfolding QY_def KY_def by (rule py_value)
  then have "f64 (- (QY * 40)) = Some (- KY)" by (simp add: f64_minus)
  then have s8: "f64_mul (- QY) maxDistance = Some (- KY)" by (simp add: f64_mul_def maxDistance_def)
  have "f64 (KX / 40) = Some MX" unfolding KX_def MX_def by (rule mx_value)
  then have s9: "f64_div KX maxDistance = Some MX" by (simp add: f64_div_def maxDistance_def)
  have "f64 (KY / 40) = Some MY" unfolding KY_def MY_def by (rule my_value)
  then have s10: "f64_div KY maxDistance = Some MY" by (simp add: f64_div_def maxDistance_def)
  have "scaleToRadius_f64 200 (- 110) = Some (\<lparr>px = KX, py = - KY\<rparr>, \<lparr>px = MX, py = MY\<rparr>)"
    unfolding scaleToRadius_f64_def
    by (simp add: s1 s2 s3 s4 far s5 s6 s7 s8 s9 s10)
  then show ?thesis unfolding KX_def KY_def MX_def MY_def .
qed

lemma scale_80_0:
  "scaleToRadius_f64 80 0 = Some (\<lparr>px = 40, py = 0\<rparr>, \<lparr>px = 1, py = 0\<rparr>)"
proof -
  have r: "sqrt 6400 = (80::real)" by (rule real_sqrt_unique) simp_all
  show ?thesis
    unfolding scaleToRadius_f64_def
    by (simp add: f64_mul_def f64_add_def f64_sqrt_def f64_div_def maxDistance_def r
        f64_numeral f64_zero f64_one)
qed

lemma range_200: "f64_range (- 500) 500 200" and range_110: "f64_range (- 500) 500 (- 110)"
proof -
  have a: "(2::real) powi (- 500) \<le> 2 powi 0" by (intro power_int_increasing) simp_all
  have b: "(2::real) powi 8 \<le> 2 powi 500" by (intro power_int_increasing) simp_all
  have c: "(2::real) powi 8 = 256" by simp
  show "f64_range (- 500) 500 200" unfolding f64_range_def using a b c by simp
  show "f64_range (- 500) 500 (- 110)" unfolding f64_range_def using a b c by simp
qed

lemma updatePosition_part000_f64_eq:
  "updatePosition_part000_f64 clientX clientY s = updatePosition_f64 clientX clientY s"
  by (simp add: updatePosition_f64_def updatePosition_part000_f64_def)

section \<open>The mapper\<close>

lemma updatePosition_emits:
  assumes "joystickRef s = Some rect"
  shows "moveDirection (updatePosition cx cy s) =
     (let dx = cx - (rect_left rect + rect_width rect / 2);
          dy = cy - (rect_top rect + rect_height rect / 2);
          d = sqrt (dx * dx + dy * dy)
      in \<lparr>px = (if d > maxDistance then (dx / d) * maxDistance else dx) / maxDistance,
          py = - (if d > maxDistance then (dy / d) * maxDistance else dy) / maxDistance\<rparr>)"
  using assms by (simp add: updatePosition_def Let_def)

lemma clamp_cases:
  fixes dx dy d :: real
  shows "\<lparr>px = (if d > maxDistance then (dx / d) * maxDistance else dx) / maxDistance,
          py = - (if d > maxDistance then (dy / d) * maxDistance else dy) / maxDistance\<rparr> =
         (if d > 40 then \<lparr>px = dx / d, py = - dy / d\<rparr> else \<lparr>px = dx / 40, py = - dy / 40\<rparr>)"
  by (simp add: maxDistance_def)

lemma updatePosition_emits_cases:
  assumes "joystickRef s = Some rect"
  shows "moveDirection (updatePosition cx cy s) =
     (let dx = cx - (rect_left rect + rect_width rect / 2);
          dy = cy - (rect_top rect + rect_height rect / 2);
          d = sqrt (dx * dx + dy * dy)
      in if d > 40 then \<lparr>px = dx / d, py = - dy / d\<rparr> else \<lparr>px = dx / 40, py = - dy / 40\<rparr>)"
  unfolding updatePosition_emits [OF assms] Let_def clamp_cases ..

lemma unit_when_clamped:
  fixes dx dy :: real
  assumes "sqrt (dx * dx + dy * dy) > 40"
  shows "sqrt ((dx / sqrt (dx * dx + dy * dy)) * (dx / sqrt (dx * dx + dy * dy)) +
               (- dy / sqrt (dx * dx + dy * dy)) * (- dy / sqrt (dx * dx + dy * dy))) = 1"
proof -
  define d where "d = sqrt (dx * dx + dy * dy)"
  have dpos: "d > 0" using assms unfolding d_def by linarith
  have nn: "0 \<le> dx * dx + dy * dy" by simp
  have dd: "dx * dx + dy * dy = d * d"
    unfolding d_def using nn by simp
  have "(dx / d) * (dx / d) + (- dy / d) * (- dy / d) = (dx * dx + dy * dy) / (d * d)"
    by (simp add: add_divide_distrib)
  also have "\<dots> = (d * d) / (d * d)" by (simp only: dd)
  also have "\<dots> = 1" using dpos by simp
  finally have "sqrt ((dx / d) * (dx / d) + (- dy / d) * (- dy / d)) = 1" by simp
  then show ?thesis unfolding d_def .
qed

lemma inside_radius:
  fixes dx dy :: real
  assumes "\<not> sqrt (dx * dx + dy * dy) > 40"
  shows "sqrt ((dx / 40) * (dx / 40) + (- dy / 40) * (- dy / 40)) \<le> 1"
proof -
  have "(dx / 40) * (dx / 40) + (- dy / 40) * (- dy / 40) = (dx * dx + dy * dy) / (40 * 40)"
    by (simp add: add_divide_distrib)
  then have "sqrt ((dx / 40) * (dx / 40) + (- dy / 40) * (- dy / 40)) =
             sqrt ((dx * dx + dy * dy) / (40 * 40))"
    by (simp only:)
  also have "\<dots> = sqrt (dx * dx + dy * dy) / sqrt (40 * 40)"
    by (rule real_sqrt_divide)
  also have "sqrt (40 * 40 :: real) = 40" by simp
  finally have e: "sqrt ((dx / 40) * (dx / 40) + (- dy / 40) * (- dy / 40)) =
             sqrt (dx * dx + dy * dy) / 40" .
  have "sqrt (dx * dx + dy * dy) / 40 \<le> 1" using assms by linarith
  then show ?thesis by (simp only: e)
qed

lemma magnitude_le_1:
  assumes "joystickRef s = Some rect"
  shows "sqrt (px (moveDirection (updatePosition cx cy s)) * px (moveDirection (updatePosition cx cy s)) +
              py (moveDirection (updatePosition cx cy s)) * py (moveDirection (updatePosition cx cy s))) \<le> 1"
proof -
  define dx where "dx = cx - (rect_left rect + rect_width rect / 2)"
  define dy where "dy = cy - (rect_top rect + rect_height rect / 2)"
  show ?thesis
  proof (cases "sqrt (dx * dx + dy * dy) > 40")
    case True
    have m: "moveDirection (updatePosition cx cy s) =
       \<lparr>px = dx / sqrt (dx * dx + dy * dy), py = - dy / sqrt (dx * dx + dy * dy)\<rparr>"
      unfolding updatePosition_emits_cases [OF assms] Let_def dx_def [symmetric] dy_def [symmetric]
      using True by (simp only: if_True)
    show ?thesis unfolding m Point.simps using unit_when_clamped [OF True] by (simp only:)
  next
    case False
    have m: "moveDirection (updatePosition cx cy s) = \<lparr>px = dx / 40, py = - dy / 40\<rparr>"
      unfolding updatePosition_emits_cases [OF assms] Let_def dx_def [symmetric] dy_def [symmetric]
      using False by (simp only: if_False)
    show ?thesis unfolding m Point.simps using inside_radius [OF False] .
  qed
qed

lemma drag_80:
  assumes "joystickRef s = Some rect"
  shows "moveDirection (updatePosition (rect_left rect + rect_width rect / 2 + 80)
           (rect_top rect + rect_height rect / 2) s) = \<lparr>px = 1, py = 0\<rparr>"
  by (simp add: updatePosition_emits_cases [OF assms] Let_def)


lemma mounted: "joystickRef (s\<lparr>joystickRef := Some rect\<rparr>) = Some rect"
  by simp

lemma updatePosition_knob:
  assumes "joystickRef s = Some rect"
  shows "position (updatePosition cx cy s) =
     (let dx = cx - (rect_left rect + rect_width rect / 2);
          dy = cy - (rect_top rect + rect_height rect / 2);
          d = sqrt (dx * dx + dy * dy)
      in \<lparr>px = (if d > maxDistance then (dx / d) * maxDistance else dx),
          py = (if d > maxDistance then (dy / d) * maxDistance else dy)\<rparr>)"
  using assms by (simp add: updatePosition_def Let_def)

lemma knob_cases:
  fixes dx dy d :: real
  shows "\<lparr>px = (if d > maxDistance then (dx / d) * maxDistance else dx),
          py = (if d > maxDistance then (dy / d) * maxDistance else dy)\<rparr> =
         (if d > 40 then \<lparr>px = dx / d * 40, py = dy / d * 40\<rparr> else \<lparr>px = dx, py = dy\<rparr>)"
  by (simp add: maxDistance_def)

lemma knob_at_radius:
  fixes dx dy :: real
  assumes "sqrt (dx * dx + dy * dy) > 40"
  shows "sqrt ((dx / sqrt (dx * dx + dy * dy) * 40) * (dx / sqrt (dx * dx + dy * dy) * 40) +
               (dy / sqrt (dx * dx + dy * dy) * 40) * (dy / sqrt (dx * dx + dy * dy) * 40)) = 40"
proof -
  define d where "d = sqrt (dx * dx + dy * dy)"
  have dpos: "d > 0" using assms unfolding d_def by linarith
  have nn: "0 \<le> dx * dx + dy * dy" by simp
  have dd: "dx * dx + dy * dy = d * d"
    unfolding d_def using nn by simp
  have "(dx / d * 40) * (dx / d * 40) + (dy / d * 40) * (dy / d * 40) =
        1600 * ((dx * dx + dy * dy) / (d * d))"
    by (simp add: add_divide_distrib distrib_left)
  also have "\<dots> = 1600 * ((d * d) / (d * d))" by (simp only: dd)
  also have "\<dots> = 1600" using dpos by simp
  finally have "sqrt ((dx / d * 40) * (dx / d * 40) + (dy / d * 40) * (dy / d * 40)) = sqrt 1600"
    by (simp only:)
  also have "sqrt 1600 = (40::real)" by (rule sqrt_eqI) simp_all
  finally show ?thesis unfolding d_def .
qed

lemma far_exact:
  "40 < sqrt (dx * dx + dy * dy) \<longrightarrow>
      moveDirection (updatePosition (rect_left rect + rect_width rect / 2 + dx)
          (rect_top rect + rect_height rect / 2 + dy) (s\<lparr>joystickRef := Some rect\<rparr>)) =
        \<lparr>px = dx / sqrt (dx * dx + dy * dy), py = - dy / sqrt (dx * dx + dy * dy)\<rparr> \<and>
      position (updatePosition (rect_left rect + rect_width rect / 2 + dx)
          (rect_top rect + rect_height rect / 2 + dy) (s\<lparr>joystickRef := Some rect\<rparr>)) =
        \<lparr>px = dx / sqrt (dx * dx + dy * dy) * 40, py = dy / sqrt (dx * dx + dy * dy) * 40\<rparr> \<and>
      magnitude (moveDirection (updatePosition (rect_left rect + rect_width rect / 2 + dx)
          (rect_top rect + rect_height rect / 2 + dy) (s\<lparr>joystickRef := Some rect\<rparr>))) = 1 \<and>
      magnitude (position (updatePosition (rect_left rect + rect_width rect / 2 + dx)
          (rect_top rect + rect_height rect / 2 + dy) (s\<lparr>joystickRef := Some rect\<rparr>))) = 40"
proof
  assume far: "40 < sqrt (dx * dx + dy * dy)"
  have c: "(rect_left rect + rect_width rect / 2 + dx) - (rect_left rect + rect_width rect / 2) = dx" "(rect_top rect + rect_height rect / 2 + dy) - (rect_top rect + rect_height rect / 2) = dy" by simp_all
  have m: "moveDirection (updatePosition (rect_left rect + rect_width rect / 2 + dx)
          (rect_top rect + rect_height rect / 2 + dy) (s\<lparr>joystickRef := Some rect\<rparr>)) =
        \<lparr>px = dx / sqrt (dx * dx + dy * dy), py = - dy / sqrt (dx * dx + dy * dy)\<rparr>"
    unfolding updatePosition_emits_cases [OF mounted] Let_def c
    using far by (simp only: if_True)
  have k: "position (updatePosition (rect_left rect + rect_width rect / 2 + dx)
          (rect_top rect + rect_height rect / 2 + dy) (s\<lparr>joystickRef := Some rect\<rparr>)) =
        \<lparr>px = dx / sqrt (dx * dx + dy * dy) * 40, py = dy / sqrt (dx * dx + dy * dy) * 40\<rparr>"
    unfolding updatePosition_knob [OF mounted] Let_def c knob_cases
    using far by (simp only: if_True)
  have m1: "magnitude (moveDirection (updatePosition (rect_left rect + rect_width rect / 2 + dx)
          (rect_top rect + rect_height rect / 2 + dy) (s\<lparr>joystickRef := Some rect\<rparr>))) = 1"
    unfolding magnitude_def m Point.simps using unit_when_clamped [OF far] by (simp only:)
  have k1: "magnitude (position (updatePosition (rect_left rect + rect_width rect / 2 + dx)
          (rect_top rect + rect_height rect / 2 + dy) (s\<lparr>joystickRef := Some rect\<rparr>))) = 40"
    unfolding magnitude_def k Point.simps using knob_at_radius [OF far] by (simp only:)
  from m k m1 k1 show "moveDirection (updatePosition (rect_left rect + rect_width rect / 2 + dx)
          (rect_top rect + rect_height rect / 2 + dy) (s\<lparr>joystickRef := Some rect\<rparr>)) =
        \<lparr>px = dx / sqrt (dx * dx + dy * dy), py = - dy / sqrt (dx * dx + dy * dy)\<rparr> \<and>
      position (updatePosition (rect_left rect + rect_width rect / 2 + dx)
          (rect_top rect + rect_height rect / 2 + dy) (s\<lparr>joystickRef := Some rect\<rparr>)) =
        \<lparr>px = dx / sqrt (dx * dx + dy * dy) * 40, py = dy / sqrt (dx * dx + dy * dy) * 40\<rparr> \<and>
      magnitude (moveDirection (updatePosition (rect_left rect + rect_width rect / 2 + dx)
          (rect_top rect + rect_height rect / 2 + dy) (s\<lparr>joystickRef := Some rect\<rparr>))) = 1 \<and>
      magnitude (position (updatePosition (rect_left rect + rect_width rect / 2 + dx)
          (rect_top rect + rect_height rect / 2 + dy) (s\<lparr>joystickRef := Some rect\<rparr>))) = 40" by (simp only: simp_thms)
qed

lemma near_exact:
  "\<not> 40 < sqrt (dx * dx + dy * dy) \<longrightarrow>
      moveDirection (updatePosition (rect_left rect + rect_width rect / 2 + dx)
          (rect_top rect + rect_height rect / 2 + dy) (s\<lparr>joystickRef := Some rect\<rparr>)) = \<lparr>px = dx / 40, py = - dy / 40\<rparr> \<and>
      position (updatePosition (rect_left rect + rect_width rect / 2 + dx)
          (rect_top rect + rect_height rect / 2 + dy) (s\<lparr>joystickRef := Some rect\<rparr>)) = \<lparr>px = dx, py = dy\<rparr>"
proof
  assume near: "\<not> 40 < sqrt (dx * dx + dy * dy)"
  have c: "(rect_left rect + rect_width rect / 2 + dx) - (rect_left rect + rect_width rect / 2) = dx" "(rect_top rect + rect_height rect / 2 + dy) - (rect_top rect + rect_height rect / 2) = dy" by simp_all
  have m: "moveDirection (updatePosition (rect_left rect + rect_width rect / 2 + dx)
          (rect_top rect + rect_height rect / 2 + dy) (s\<lparr>joystickRef := Some rect\<rparr>)) = \<lparr>px = dx / 40, py = - dy / 40\<rparr>"
    unfolding updatePosition_emits_cases [OF mounted] Let_def c
    using near by (simp only: if_False)
  have k: "position (updatePosition (rect_left rect + rect_width rect / 2 + dx)
          (rect_top rect + rect_height rect / 2 + dy) (s\<lparr>joystickRef := Some rect\<rparr>)) = \<lparr>px = dx, py = dy\<rparr>"
    unfolding updatePosition_knob [OF mounted] Let_def c knob_cases
    using near by (simp only: if_False)
  from m k show "moveDirection (updatePosition (rect_left rect + rect_width rect / 2 + dx)
          (rect_top rect + rect_height rect / 2 + dy) (s\<lparr>joystickRef := Some rect\<rparr>)) = \<lparr>px = dx / 40, py = - dy / 40\<rparr> \<and>
      position (updatePosition (rect_left rect + rect_width rect / 2 + dx)
          (rect_top rect + rect_height rect / 2 + dy) (s\<lparr>joystickRef := Some rect\<rparr>)) = \<lparr>px = dx, py = dy\<rparr>" by (simp only: simp_thms)
qed

lemma f64_magnitude_bound:
  "displacement_f64 rect clientX clientY = Some (fx, fy) \<and>
    f64_range (- 500) 500 fx \<and> f64_range (- 500) 500 fy \<longrightarrow>
      (\<exists>s'. updatePosition_f64 clientX clientY (s\<lparr>joystickRef := Some rect\<rparr>) = Some s' \<and>
         magnitude (moveDirection s') \<le> 1 + 1 / 2 ^ 50)"
proof
  assume h: "displacement_f64 rect clientX clientY = Some (fx, fy) \<and>
    f64_range (- 500) 500 fx \<and> f64_range (- 500) 500 fy"
  from scale_bound [of fx fy] h obtain knob m where
    r: "scaleToRadius_f64 fx fy = Some (knob, m)"
    and b: "px m * px m + py m * py m \<le> (1 + f64_u) ^ 6 / (1 - f64_u) ^ 4" by blast
  have s: "updatePosition_f64 clientX clientY (s\<lparr>joystickRef := Some rect\<rparr>) =
      Some ((s\<lparr>joystickRef := Some rect\<rparr>)\<lparr>position := knob, moveDirection := m\<rparr>)"
    by (rule updatePosition_f64_result [OF mounted _ r]) (use h in simp)
  have "px m * px m + py m * py m \<le> (1 + 1 / 2 ^ 50) * (1 + 1 / 2 ^ 50)"
    using b bound_numeric by linarith
  then have "px m * px m + py m * py m \<le> (1 + 1 / 2 ^ 50)\<^sup>2"
    by (simp only: power2_eq_square)
  then have "sqrt (px m * px m + py m * py m) \<le> 1 + 1 / 2 ^ 50"
    by (intro real_le_lsqrt) simp_all
  with s show "(\<exists>s'. updatePosition_f64 clientX clientY (s\<lparr>joystickRef := Some rect\<rparr>) = Some s' \<and>
         magnitude (moveDirection s') \<le> 1 + 1 / 2 ^ 50)" by (simp add: magnitude_def)
qed

lemma f64_drag_exact:
  "displacement_f64 rect clientX clientY = Some (80, 0) \<longrightarrow>
      map_option moveDirection (updatePosition_f64 clientX clientY (s\<lparr>joystickRef := Some rect\<rparr>)) = Some \<lparr>px = 1, py = 0\<rparr>"
proof
  assume h: "displacement_f64 rect clientX clientY = Some (80, 0)"
  have "updatePosition_f64 clientX clientY (s\<lparr>joystickRef := Some rect\<rparr>) =
      Some ((s\<lparr>joystickRef := Some rect\<rparr>)\<lparr>position := \<lparr>px = 40, py = 0\<rparr>, moveDirection := \<lparr>px = 1, py = 0\<rparr>\<rparr>)"
    by (rule updatePosition_f64_result [OF mounted h scale_80_0])
  then show "map_option moveDirection (updatePosition_f64 clientX clientY (s\<lparr>joystickRef := Some rect\<rparr>)) = Some \<lparr>px = 1, py = 0\<rparr>" by simp
qed

lemma exact_magnitude:
  "magnitude (moveDirection (updatePosition (rect_left rect + rect_width rect / 2 + dx)
          (rect_top rect + rect_height rect / 2 + dy) (s\<lparr>joystickRef := Some rect\<rparr>))) \<le> 1"
  unfolding magnitude_def by (rule magnitude_le_1 [OF mounted])

lemma exact_far:
  "40 < sqrt (dx * dx + dy * dy) \<longrightarrow>
      moveDirection (updatePosition (rect_left rect + rect_width rect / 2 + dx)
          (rect_top rect + rect_height rect / 2 + dy) (s\<lparr>joystickRef := Some rect\<rparr>)) =
        \<lparr>px = dx / sqrt (dx * dx + dy * dy), py = - dy / sqrt (dx * dx + dy * dy)\<rparr> \<and>
      position (updatePosition (rect_left rect + rect_width rect / 2 + dx)
          (rect_top rect + rect_height rect / 2 + dy) (s\<lparr>joystickRef := Some rect\<rparr>)) =
        \<lparr>px = dx / sqrt (dx * dx + dy * dy) * 40, py = dy / sqrt (dx * dx + dy * dy) * 40\<rparr> \<and>
      magnitude (moveDirection (updatePosition (rect_left rect + rect_width rect / 2 + dx)
          (rect_top rect + rect_height rect / 2 + dy) (s\<lparr>joystickRef := Some rect\<rparr>))) = 1 \<and>
      magnitude (position (updatePosition (rect_left rect + rect_width rect / 2 + dx)
          (rect_top rect + rect_height rect / 2 + dy) (s\<lparr>joystickRef := Some rect\<rparr>))) = 40"
  by (rule far_exact)

lemma exact_near:
  "\<not> 40 < sqrt (dx * dx + dy * dy) \<longrightarrow>
      moveDirection (updatePosition (rect_left rect + rect_width rect / 2 + dx)
          (rect_top rect + rect_height rect / 2 + dy) (s\<lparr>joystickRef := Some rect\<rparr>)) = \<lparr>px = dx / 40, py = - dy / 40\<rparr> \<and>
      position (updatePosition (rect_left rect + rect_width rect / 2 + dx)
          (rect_top rect + rect_height rect / 2 + dy) (s\<lparr>joystickRef := Some rect\<rparr>)) = \<lparr>px = dx, py = dy\<rparr>"
  by (rule near_exact)

lemma exact_drag:
  "moveDirection (updatePosition (rect_left rect + rect_width rect / 2 + 80) (rect_top rect + rect_height rect / 2) (s\<lparr>joystickRef := Some rect\<rparr>)) = \<lparr>px = 1, py = 0\<rparr>"
  by (rule drag_80 [OF mounted])

lemma exact_magnitude_part000:
  "magnitude (moveDirection (updatePosition_part000 (rect_left rect + rect_width rect / 2 + dx)
          (rect_top rect + rect_height rect / 2 + dy) (s\<lparr>joystickRef := Some rect\<rparr>))) \<le> 1"
  unfolding updatePosition_part000_eq
  unfolding magnitude_def by (rule magnitude_le_1 [OF mounted])

lemma exact_far_part000:
  "40 < sqrt (dx * dx + dy * dy) \<longrightarrow>
      moveDirection (updatePosition_part000 (rect_left rect + rect_width rect / 2 + dx)
          (rect_top rect + rect_height rect / 2 + dy) (s\<lparr>joystickRef := Some rect\<rparr>)) =
        \<lparr>px = dx / sqrt (dx * dx + dy * dy), py = - dy / sqrt (dx * dx + dy * dy)\<rparr> \<and>
      position (updatePosition_part000 (rect_left rect + rect_width rect / 2 + dx)
          (rect_top rect + rect_height rect / 2 + dy) (s\<lparr>joystickRef := Some rect\<rparr>)) =
        \<lparr>px = dx / sqrt (dx * dx + dy * dy) * 40, py = dy / sqrt (dx * dx + dy * dy) * 40\<rparr> \<and>
      magnitude (moveDirection (updatePosition_part000 (rect_left rect + rect_width rect / 2 + dx)
          (rect_top rect + rect_height rect / 2 + dy) (s\<lparr>joystickRef := Some rect\<rparr>))) = 1 \<and>
      magnitude (position (updatePosition_part000 (rect_left rect + rect_width rect / 2 + dx)
          (rect_top rect + rect_height rect / 2 + dy) (s\<lparr>joystickRef := Some rect\<rparr>))) = 40"
  unfolding updatePosition_part000_eq
  by (rule far_exact)

lemma exact_near_part000:
  "\<not> 40 < sqrt (dx * dx + dy * dy) \<longrightarrow>
      moveDirection (updatePosition_part000 (rect_left rect + rect_width rect / 2 + dx)
          (rect_top rect + rect_height rect / 2 + dy) (s\<lparr>joystickRef := Some rect\<rparr>)) = \<lparr>px = dx / 40, py = - dy / 40\<rparr> \<and>
      position (updatePosition_part000 (rect_left rect + rect_width rect / 2 + dx)
          (rect_top rect + rect_height rect / 2 + dy) (s\<lparr>joystickRef := Some rect\<rparr>)) = \<lparr>px = dx, py = dy\<rparr>"
  unfolding updatePosition_part000_eq
  by (rule near_exact)

lemma exact_drag_part000:
  "moveDirection (updatePosition_part000 (rect_left rect + rect_width rect / 2 + 80) (rect_top rect + rect_height rect / 2) (s\<lparr>joystickRef := Some rect\<rparr>)) = \<lparr>px = 1, py = 0\<rparr>"
  unfolding updatePosition_part000_eq
  by (rule drag_80 [OF mounted])

lemma f64_magnitude:
  "displacement_f64 rect clientX clientY = Some (fx, fy) \<and>
    f64_range (- 500) 500 fx \<and> f64_range (- 500) 500 fy \<longrightarrow>
      (\<exists>s'. updatePosition_f64 clientX clientY (s\<lparr>joystickRef := Some rect\<rparr>) = Some s' \<and>
         magnitude (moveDirection s') \<le> 1 + 1 / 2 ^ 50)"
  by (rule f64_magnitude_bound)

lemma f64_drag:
  "displacement_f64 rect clientX clientY = Some (80, 0) \<longrightarrow>
      map_option moveDirection (updatePosition_f64 clientX clientY (s\<lparr>joystickRef := Some rect\<rparr>)) = Some \<lparr>px = 1, py = 0\<rparr>"
  by (rule f64_drag_exact)

lemma f64_magnitude_part000:
  "displacement_f64 rect clientX clientY = Some (fx, fy) \<and>
    f64_range (- 500) 500 fx \<and> f64_range (- 500) 500 fy \<longrightarrow>
      (\<exists>s'. updatePosition_part000_f64 clientX clientY (s\<lparr>joystickRef := Some rect\<rparr>) = Some s' \<and>
         magnitude (moveDirection s') \<le> 1 + 1 / 2 ^ 50)"
  unfolding updatePosition_part000_f64_eq
  by (rule f64_magnitude_bound)

lemma f64_drag_part000:
  "displacement_f64 rect clientX clientY = Some (80, 0) \<longrightarrow>
      map_option moveDirection (updatePosition_part000_f64 clientX clientY (s\<lparr>joystickRef := Some rect\<rparr>)) = Some \<lparr>px = 1, py = 0\<rparr>"
  unfolding updatePosition_part000_f64_eq
  by (rule f64_drag_exact)

text \<open>
  C2, as stated, fails in the arithmetic the code runs in. With the control at its place
  in \<open>idle_joystick\<close> (centre \<open>(96, 664)\<close>) and the pointer at \<open>(296, 554)\<close>, the displacement
  is \<open>(200, -110)\<close>, of magnitude beyond the radius; every operation of \<open>updatePosition\<close>
  rounded to binary64, the vector emitted has a magnitude greater than 1, in both
  versions.
\<close>

theorem mapper_magnitude_counterexample:
  "map_option moveDirection (updatePosition_f64 296 554 idle_joystick) =
     Some \<lparr>px = 7892251279624498 / 2 ^ 53, py = 8681476407586946 / 2 ^ 54\<rparr> \<and>
   map_option moveDirection (updatePosition_part000_f64 296 554 idle_joystick) =
     Some \<lparr>px = 7892251279624498 / 2 ^ 53, py = 8681476407586946 / 2 ^ 54\<rparr> \<and>
   1 < magnitude \<lparr>px = 7892251279624498 / 2 ^ 53, py = 8681476407586946 / 2 ^ 54\<rparr>"
proof -
  have m: "joystickRef idle_joystick = Some control_rect"
    by (simp add: idle_joystick_def control_rect_def)
  have r: "updatePosition_f64 296 554 idle_joystick =
      Some (idle_joystick\<lparr>position := \<lparr>px = 4932657049765311 / 2 ^ 47,
                                       py = - (5425922754741841 / 2 ^ 48)\<rparr>,
                          moveDirection := \<lparr>px = 7892251279624498 / 2 ^ 53,
                                            py = 8681476407586946 / 2 ^ 54\<rparr>\<rparr>)"
    by (rule updatePosition_f64_result [OF m idle_displacement scale_200_110])
  have a: "map_option moveDirection (updatePosition_f64 296 554 idle_joystick) =
     Some \<lparr>px = 7892251279624498 / 2 ^ 53, py = 8681476407586946 / 2 ^ 54\<rparr>"
    unfolding r by simp
  have b: "map_option moveDirection (updatePosition_part000_f64 296 554 idle_joystick) =
     Some \<lparr>px = 7892251279624498 / 2 ^ 53, py = 8681476407586946 / 2 ^ 54\<rparr>"
    unfolding updatePosition_part000_f64_eq by (rule a)
  have c: "1 < magnitude \<lparr>px = 7892251279624498 / 2 ^ 53, py = 8681476407586946 / 2 ^ 54\<rparr>"
    unfolding magnitude_def Point.simps using over_one by (simp only: real_sqrt_gt_1_iff)
  from a b c show ?thesis by (simp only: simp_thms)
qed

text \<open>
  C2, amended. Whenever the joystick element is mounted, so that \<open>updatePosition\<close> emits a
  vector, and in both versions: computed exactly, the vector emitted for a pointer at
  displacement \<open>(dx, dy)\<close> from the centre has magnitude at most 1. A displacement of
  magnitude \<open>d\<close> beyond the radius 40 is scaled back to the radius: the knob is
  \<open>(dx / d * 40, dy / d * 40)\<close>, of magnitude exactly 40, and the vector is
  \<open>(dx / d, - dy / d)\<close>, of magnitude exactly 1; within the radius the knob is \<open>(dx, dy)\<close>
  and the vector is \<open>(dx / 40, - dy / 40)\<close>. A pointer 80 pixels to the right of the centre
  gives \<open>(1, 0)\<close>. Computed in binary64, for a displacement whose components are zero or
  of a magnitude between \<open>2^-500\<close> and \<open>2^500\<close>, \<open>updatePosition\<close> returns finite values and
  the vector emitted has magnitude at most \<open>1 + 2^-50\<close>; the displacement \<open>(80, 0)\<close> gives
  exactly \<open>(1, 0)\<close>.
\<close>

theorem mapper_magnitude:
  "magnitude (moveDirection (updatePosition (rect_left rect + rect_width rect / 2 + dx)
          (rect_top rect + rect_height rect / 2 + dy) (s\<lparr>joystickRef := Some rect\<rparr>))) \<le> 1 \<and>
   magnitude (moveDirection (updatePosition_part000 (rect_left rect + rect_width rect / 2 + dx)
          (rect_top rect + rect_height rect / 2 + dy) (s\<lparr>joystickRef := Some rect\<rparr>))) \<le> 1 \<and>
   (40 < sqrt (dx * dx + dy * dy) \<longrightarrow>
      moveDirection (updatePosition (rect_left rect + rect_width rect / 2 + dx)
          (rect_top rect + rect_height rect / 2 + dy) (s\<lparr>joystickRef := Some rect\<rparr>)) =
        \<lparr>px = dx / sqrt (dx * dx + dy * dy), py = - dy / sqrt (dx * dx + dy * dy)\<rparr> \<and>
      position (updatePosition (rect_left rect + rect_width rect / 2 + dx)
          (rect_top rect + rect_height rect / 2 + dy) (s\<lparr>joystickRef := Some rect\<rparr>)) =
        \<lparr>px = dx / sqrt (dx * dx + dy * dy) * 40, py = dy / sqrt (dx * dx + dy * dy) * 40\<rparr> \<and>
      magnitude (moveDirection (updatePosition (rect_left rect + rect_width rect / 2 + dx)
          (rect_top rect + rect_height rect / 2 + dy) (s\<lparr>joystickRef := Some rect\<rparr>))) = 1 \<and>
      magnitude (position (updatePosition (rect_left rect + rect_width rect / 2 + dx)
          (rect_top rect + rect_height rect / 2 + dy) (s\<lparr>joystickRef := Some rect\<rparr>))) = 40) \<and>
   (40 < sqrt (dx * dx + dy * dy) \<longrightarrow>
      moveDirection (updatePosition_part000 (rect_left rect + rect_width rect / 2 + dx)
          (rect_top rect + rect_height rect / 2 + dy) (s\<lparr>joystickRef := Some rect\<rparr>)) =
        \<lparr>px = dx / sqrt (dx * dx + dy * dy), py = - dy / sqrt (dx * dx + dy * dy)\<rparr> \<and>
      position (updatePosition_part000 (rect_left rect + rect_width rect / 2 + dx)
          (rect_top rect + rect_height rect / 2 + dy) (s\<lparr>joystickRef := Some rect\<rparr>)) =
        \<lparr>px = dx / sqrt (dx * dx + dy * dy) * 40, py = dy / sqrt (dx * dx + dy * dy) * 40\<rparr> \<and>
      magnitude (moveDirection (updatePosition_part000 (rect_left rect + rect_width rect / 2 + dx)
          (rect_top rect + rect_height rect / 2 + dy) (s\<lparr>joystickRef := Some rect\<rparr>))) = 1 \<and>
      magnitude (position (updatePosition_part000 (rect_left rect + rect_width rect / 2 + dx)
          (rect_top rect + rect_height rect / 2 + dy) (s\<lparr>joystickRef := Some rect\<rparr>))) = 40) \<and>
   (\<not> 40 < sqrt (dx * dx + dy * dy) \<longrightarrow>
      moveDirection (updatePosition (rect_left rect + rect_width rect / 2 + dx)
          (rect_top rect + rect_height rect / 2 + dy) (s\<lparr>joystickRef := Some rect\<rparr>)) = \<lparr>px = dx / 40, py = - dy / 40\<rparr> \<and>
      position (updatePosition (rect_left rect + rect_width rect / 2 + dx)
          (rect_top rect + rect_height rect / 2 + dy) (s\<lparr>joystickRef := Some rect\<rparr>)) = \<lparr>px = dx, py = dy\<rparr>) \<and>
   (\<not> 40 < sqrt (dx * dx + dy * dy) \<longrightarrow>
      moveDirection (updatePosition_part000 (rect_left rect + rect_width rect / 2 + dx)
          (rect_top rect + rect_height rect / 2 + dy) (s\<lparr>joystickRef := Some rect\<rparr>)) = \<lparr>px = dx / 40, py = - dy / 40\<rparr> \<and>
      position (updatePosition_part000 (rect_left rect + rect_width rect / 2 + dx)
          (rect_top rect + rect_height rect / 2 + dy) (s\<lparr>joystickRef := Some rect\<rparr>)) = \<lparr>px = dx, py = dy\<rparr>) \<and>
   moveDirection (updatePosition (rect_left rect + rect_width rect / 2 + 80) (rect_top rect + rect_height rect / 2) (s\<lparr>joystickRef := Some rect\<rparr>)) = \<lparr>px = 1, py = 0\<rparr> \<and>
   moveDirection (updatePosition_part000 (rect_left rect + rect_width rect / 2 + 80) (rect_top rect + rect_height rect / 2) (s\<lparr>joystickRef := Some rect\<rparr>)) = \<lparr>px = 1, py = 0\<rparr> \<and>
   (displacement_f64 rect clientX clientY = Some (fx, fy) \<and>
    f64_range (- 500) 500 fx \<and> f64_range (- 500) 500 fy \<longrightarrow>
      (\<exists>s'. updatePosition_f64 clientX clientY (s\<lparr>joystickRef := Some rect\<rparr>) = Some s' \<and>
         magnitude (moveDirection s') \<le> 1 + 1 / 2 ^ 50)) \<and>
   (displacement_f64 rect clientX clientY = Some (fx, fy) \<and>
    f64_range (- 500) 500 fx \<and> f64_range (- 500) 500 fy \<longrightarrow>
      (\<exists>s'. updatePosition_part000_f64 clientX clientY (s\<lparr>joystickRef := Some rect\<rparr>) = Some s' \<and>
         magnitude (moveDirection s') \<le> 1 + 1 / 2 ^ 50)) \<and>
   (displacement_f64 rect clientX clientY = Some (80, 0) \<longrightarrow>
      map_option moveDirection (updatePosition_f64 clientX clientY (s\<lparr>joystickRef := Some rect\<rparr>)) = Some \<lparr>px = 1, py = 0\<rparr>) \<and>
   (displacement_f64 rect clientX clientY = Some (80, 0) \<longrightarrow>
      map_option moveDirection (updatePosition_part000_f64 clientX clientY (s\<lparr>joystickRef := Some rect\<rparr>)) = Some \<lparr>px = 1, py = 0\<rparr>)"
  by (intro conjI exact_magnitude exact_magnitude_part000 exact_far exact_far_part000
      exact_near exact_near_part000 exact_drag exact_drag_part000 f64_magnitude
      f64_magnitude_part000 f64_drag f64_drag_part000)

theorem mapper_magnitude_witness:
  "40 < sqrt (80 * 80 + 0 * 0 :: real) \<and>
   moveDirection (updatePosition (rect_left control_rect + rect_width control_rect / 2 + 80)
       (rect_top control_rect + rect_height control_rect / 2 + 0)
       (idle_joystick\<lparr>joystickRef := Some control_rect\<rparr>)) =
     \<lparr>px = 80 / sqrt (80 * 80 + 0 * 0), py = - 0 / sqrt (80 * 80 + 0 * 0)\<rparr> \<and>
   \<not> 40 < sqrt (24 * 24 + 32 * 32 :: real) \<and>
   moveDirection (updatePosition (rect_left control_rect + rect_width control_rect / 2 + 24)
       (rect_top control_rect + rect_height control_rect / 2 + 32)
       (idle_joystick\<lparr>joystickRef := Some control_rect\<rparr>)) = \<lparr>px = 24 / 40, py = - 32 / 40\<rparr> \<and>
   displacement_f64 control_rect 296 554 = Some (200, - 110) \<and>
   f64_range (- 500) 500 200 \<and> f64_range (- 500) 500 (- 110) \<and>
   (\<exists>s'. updatePosition_f64 296 554 (idle_joystick\<lparr>joystickRef := Some control_rect\<rparr>) = Some s' \<and>
      magnitude (moveDirection s') \<le> 1 + 1 / 2 ^ 50) \<and>
   displacement_f64 control_rect 176 664 = Some (80, 0) \<and>
   map_option moveDirection
     (updatePosition_f64 176 664 (idle_joystick\<lparr>joystickRef := Some control_rect\<rparr>)) =
     Some \<lparr>px = 1, py = 0\<rparr>"
proof -
  have far: "40 < sqrt (80 * 80 + 0 * 0 :: real)"
  proof -
    have "sqrt (80 * 80 + 0 * 0) = (80::real)" by (rule sqrt_eqI) simp_all
    then show ?thesis by simp
  qed
  have near: "\<not> 40 < sqrt (24 * 24 + 32 * 32 :: real)"
  proof -
    have "sqrt (24 * 24 + 32 * 32) = (40::real)" by (rule sqrt_eqI) simp_all
    then show ?thesis by simp
  qed
  note t1 = mapper_magnitude [where rect = control_rect and s = idle_joystick and dx = 80 and dy = 0
      and clientX = 296 and clientY = 554 and fx = 200 and fy = "- 110"]
  note t2 = mapper_magnitude [where rect = control_rect and s = idle_joystick and dx = 24 and dy = 32
      and clientX = 176 and clientY = 664 and fx = 80 and fy = 0]
  from t1 far have a: "moveDirection (updatePosition (rect_left control_rect + rect_width control_rect / 2 + 80)
       (rect_top control_rect + rect_height control_rect / 2 + 0)
       (idle_joystick\<lparr>joystickRef := Some control_rect\<rparr>)) =
     \<lparr>px = 80 / sqrt (80 * 80 + 0 * 0), py = - 0 / sqrt (80 * 80 + 0 * 0)\<rparr>"
    by blast
  from t2 near have b: "moveDirection (updatePosition (rect_left control_rect + rect_width control_rect / 2 + 24)
       (rect_top control_rect + rect_height control_rect / 2 + 32)
       (idle_joystick\<lparr>joystickRef := Some control_rect\<rparr>)) = \<lparr>px = 24 / 40, py = - 32 / 40\<rparr>"
    by blast
  from t1 idle_displacement range_200 range_110
  have c: "\<exists>s'. updatePosition_f64 296 554 (idle_joystick\<lparr>joystickRef := Some control_rect\<rparr>) = Some s' \<and>
      magnitude (moveDirection s') \<le> 1 + 1 / 2 ^ 50"
    by blast
  from t2 drag_displacement
  have d: "map_option moveDirection
     (updatePosition_f64 176 664 (idle_joystick\<lparr>joystickRef := Some control_rect\<rparr>)) =
     Some \<lparr>px = 1, py = 0\<rparr>"
    by blast
  from far a near b idle_displacement range_200 range_110 c drag_displacement d
  show ?thesis by (simp only: simp_thms)
qed


section \<open>Press, move and release\<close>

lemma updatePosition_isDragging: "isDragging (updatePosition x y s) = isDragging s"
  by (simp add: updatePosition_def Let_def split: option.splits)

lemma handleStart_isDragging: "isDragging (handleStart x y s)"
  by (simp add: handleStart_def updatePosition_isDragging)

lemma handleMove_isDragging: "isDragging (handleMove x y s) = isDragging s"
  by (simp add: handleMove_def updatePosition_isDragging)

lemma handleMove_idle: "\<not> isDragging s \<Longrightarrow> handleMove x y s = s"
  by (simp add: handleMove_def)

lemma handleEnd_fields:
  "moveDirection (handleEnd s) = \<lparr>px = 0, py = 0\<rparr> \<and> position (handleEnd s) = \<lparr>px = 0, py = 0\<rparr> \<and>
   \<not> isDragging (handleEnd s)"
  by (simp add: handleEnd_def)

lemma release_is_handleEnd: "e \<in> {TouchEnd, MouseUp, MouseLeave} \<Longrightarrow> dispatch e s = handleEnd s"
  by auto

text \<open>
  C4: whatever vector was emitted before and whether or not a drag was in progress, a
  release event (touch end, mouse up, or the pointer leaving the control) sets the
  emitted vector and the knob position to \<open>(0, 0)\<close> in that one step and clears the
  dragging flag, in both versions.
\<close>

theorem release_resets:
  "moveDirection (handleEnd s) = \<lparr>px = 0, py = 0\<rparr> \<and>
   position (handleEnd s) = \<lparr>px = 0, py = 0\<rparr> \<and>
   moveDirection (handleEnd_part000 s) = \<lparr>px = 0, py = 0\<rparr> \<and>
   position (handleEnd_part000 s) = \<lparr>px = 0, py = 0\<rparr> \<and>
   (e \<in> {TouchEnd, MouseUp, MouseLeave} \<longrightarrow>
      moveDirection (dispatch e s) = \<lparr>px = 0, py = 0\<rparr> \<and>
      position (dispatch e s) = \<lparr>px = 0, py = 0\<rparr> \<and>
      \<not> isDragging (dispatch e s) \<and>
      moveDirection (dispatch_part000 e s) = \<lparr>px = 0, py = 0\<rparr> \<and>
      position (dispatch_part000 e s) = \<lparr>px = 0, py = 0\<rparr> \<and>
      \<not> isDragging (dispatch_part000 e s))"
  by (simp add: handleEnd_part000_eq dispatch_part000_eq handleEnd_fields release_is_handleEnd)

theorem release_resets_witness:
  "moveDirection dragging_joystick = \<lparr>px = 1, py = 0\<rparr> \<and>
   moveDirection (dispatch MouseLeave dragging_joystick) = \<lparr>px = 0, py = 0\<rparr> \<and>
   position (dispatch MouseLeave dragging_joystick) = \<lparr>px = 0, py = 0\<rparr> \<and>
   \<not> isDragging (dispatch MouseLeave dragging_joystick) \<and>
   moveDirection (dispatch_part000 MouseLeave dragging_joystick) = \<lparr>px = 0, py = 0\<rparr>"
proof -
  have release: "MouseLeave \<in> {TouchEnd, MouseUp, MouseLeave}" by simp
  have before: "moveDirection dragging_joystick = \<lparr>px = 1, py = 0\<rparr>"
    by (simp add: dragging_joystick_def)
  from release_resets [where e = MouseLeave and s = dragging_joystick] release before
  show ?thesis by blast
qed

text \<open>
  C8: the handlers branch on nothing but the dragging flag. A press (touch start, mouse
  down) leaves the joystick dragging; a release (touch end, mouse up, mouse leave) leaves
  it idle; a move keeps the flag; and a move in the idle state returns the state as it
  was, so that neither the emitted vector nor the knob position changes. The same holds
  in both versions.
\<close>

theorem joystick_state_machine:
  "isDragging (dispatch (TouchStart x y) s) \<and>
   isDragging (dispatch (MouseDown x y) s) \<and>
   \<not> isDragging (dispatch TouchEnd s) \<and>
   \<not> isDragging (dispatch MouseUp s) \<and>
   \<not> isDragging (dispatch MouseLeave s) \<and>
   isDragging (dispatch (TouchMove x y) s) = isDragging s \<and>
   isDragging (dispatch (MouseMove x y) s) = isDragging s \<and>
   (\<not> isDragging s \<longrightarrow>
      dispatch (TouchMove x y) s = s \<and> dispatch (MouseMove x y) s = s) \<and>
   isDragging (dispatch_part000 (TouchStart x y) s) \<and>
   isDragging (dispatch_part000 (MouseDown x y) s) \<and>
   \<not> isDragging (dispatch_part000 TouchEnd s) \<and>
   \<not> isDragging (dispatch_part000 MouseUp s) \<and>
   \<not> isDragging (dispatch_part000 MouseLeave s) \<and>
   isDragging (dispatch_part000 (TouchMove x y) s) = isDragging s \<and>
   isDragging (dispatch_part000 (MouseMove x y) s) = isDragging s \<and>
   (\<not> isDragging s \<longrightarrow>
      dispatch_part000 (TouchMove x y) s = s \<and> dispatch_part000 (MouseMove x y) s = s)"
  by (simp add: dispatch_part000_eq handleStart_isDragging handleMove_isDragging handleMove_idle
      handleEnd_fields)

theorem joystick_state_machine_witness:
  "\<not> isDragging idle_joystick \<and>
   dispatch (MouseMove 500 300) idle_joystick = idle_joystick \<and>
   dispatch (TouchMove 500 300) idle_joystick = idle_joystick \<and>
   dispatch_part000 (MouseMove 500 300) idle_joystick = idle_joystick \<and>
   isDragging (dispatch (MouseDown 500 300) idle_joystick) \<and>
   \<not> isDragging (dispatch MouseUp (dispatch (MouseDown 500 300) idle_joystick))"
proof -
  have idle: "\<not> isDragging idle_joystick" by (simp add: idle_joystick_def)
  from joystick_state_machine [where x = 500 and y = 300 and s = idle_joystick]
    joystick_state_machine [where s = "dispatch (MouseDown 500 300) idle_joystick"] idle
  show ?thesis by blast
qed

end
